theory Spec2Isabelle
  imports Main "HOL-Library.Word"
begin

section \<open>The raw store of descriptastorus (raw.py)\<close>

text \<open>
  A shallow embedding of \<^verbatim>\<open>descriptastorus/raw.py\<close>: the fixed-width row store
  kept in a directory with a pickled descriptor (\<^verbatim>\<open>__rawformat__\<close>) and a data
  file (\<^verbatim>\<open>__store___\<close>) read and written through \<^verbatim>\<open>mmap\<close>.

  Conventions of the model.
  \<^item> The interpreter is CPython 3 (3.7 or later) on a little-endian LP64 platform;
    \<^verbatim>\<open>struct\<close> formats without a byte-order prefix use native sizes and native
    alignment there (a 4-byte code is aligned to 4, an 8-byte code to 8).
  \<^item> A Python value is a \<open>pyval\<close>: \<^verbatim>\<open>None\<close>, a bool, an int, a float (its IEEE-754
    binary64 bit pattern), a str (code points below 256) or a bytes object.
  \<^item> An exception is a value of \<open>exn\<close>; a call that may raise returns \<open>exn + 'a\<close>.
  \<^item> The conversions between floats of different widths, from int to float and from
    text to float are rounding operations of the platform; they are taken as a
    parameter (\<open>float_ops\<close>) of every function that reaches them.
  \<^item> On this interpreter the iteration protocol asks an iterator for \<^verbatim>\<open>__next__\<close>, and
    a \<^verbatim>\<open>StopIteration\<close> raised inside the body of a generator reaches its consumer as
    \<^verbatim>\<open>RuntimeError\<close>.
  \<^item> The two files of the directory are fields of the store's state (\<open>data\<close> and
    \<open>meta_N\<close>), so that the effects of a call on them are part of its result.
\<close>

subsection \<open>Python values and exceptions\<close>

type_synonym byte = "8 word"

datatype pyval =
    PyNone
  | PyBool bool
  | PyInt int
  | PyFloat "64 word"
  | PyStr string
  | PyBytes "byte list"

text \<open>The value converters a descriptor stores in its \<^verbatim>\<open>dtypes\<close> list.\<close>

datatype dtype_fn = Py_int | Py_float | Py_bool | Str_store

text \<open>
  One line of the message \<^verbatim>\<open>putRow\<close> builds for a failed conversion:
  \<^verbatim>\<open>"\tFor column %r can't convert %r to %s" % (colname, v, dtype)\<close>,
  kept as the three values it formats. \<open>TypeErrorMessage notes\<close> is the
  \<^verbatim>\<open>TypeError\<close> raised with the text of the caught \<^verbatim>\<open>TypeError\<close> followed by
  these lines.
\<close>

datatype convert_note = CantConvert string pyval dtype_fn

datatype exn =
    IndexError
  | ValueError
  | TypeError
  | OverflowError
  | StructError
  | IOError
  | AttributeError
  | UnboundLocalError
  | RuntimeError
  | StopIteration
  | TypeErrorMessage "convert_note list"

record float_ops =
  f32_of_f64 :: "64 word \<Rightarrow> 32 word option"
  f64_of_f32 :: "32 word \<Rightarrow> 64 word"
  f64_of_int :: "int \<Rightarrow> 64 word option"
  f64_of_str :: "string \<Rightarrow> 64 word option"
  f64_of_bytes :: "byte list \<Rightarrow> 64 word option"
  int_of_f64 :: "64 word \<Rightarrow> exn + int"
  str_of_f64 :: "64 word \<Rightarrow> string"

subsection \<open>Little-endian integers\<close>

fun le_bytes :: "nat \<Rightarrow> int \<Rightarrow> byte list" where
  "le_bytes 0 n = []"
| "le_bytes (Suc k) n = word_of_int n # le_bytes k (n div 256)"

fun le_int :: "byte list \<Rightarrow> int" where
  "le_int [] = 0"
| "le_int (b # bs) = uint b + 256 * le_int bs"

definition le_sint :: "byte list \<Rightarrow> int" where
  "le_sint bs =
     (let v = le_int bs
      in if bs \<noteq> [] \<and> 2 ^ (8 * length bs - 1) \<le> v then v - 2 ^ (8 * length bs) else v)"

subsection \<open>The struct module, native mode\<close>

text \<open>
  The format codes \<^verbatim>\<open>MakeStore\<close> emits: \<^verbatim>\<open>i q B H I Q f d ?\<close> and \<^verbatim>\<open>s\<close>.
  A format is a string; a code may be preceded by a decimal count, which is the
  byte length for \<^verbatim>\<open>s\<close> and a repetition for every other code. A count with no code
  after it, or a character outside this alphabet, is an error (\<^verbatim>\<open>struct.error\<close>).
\<close>

datatype fcode = Ci | Cq | CB | CH | CI | CQ | Cf | Cd | Cbool | Cs

definition code_of_char :: "char \<Rightarrow> fcode option" where
  "code_of_char c =
     (if c = CHR ''i'' then Some Ci
      else if c = CHR ''q'' then Some Cq
      else if c = CHR ''B'' then Some CB
      else if c = CHR ''H'' then Some CH
      else if c = CHR ''I'' then Some CI
      else if c = CHR ''Q'' then Some CQ
      else if c = CHR ''f'' then Some Cf
      else if c = CHR ''d'' then Some Cd
      else if c = CHR ''?'' then Some Cbool
      else if c = CHR ''s'' then Some Cs
      else None)"

definition digit_of_char :: "char \<Rightarrow> nat option" where
  "digit_of_char c =
     (let n = of_char c :: nat in if 48 \<le> n \<and> n \<le> 57 then Some (n - 48) else None)"

fun parse_format :: "string \<Rightarrow> nat option \<Rightarrow> (fcode \<times> nat) list option" where
  "parse_format [] None = Some []"
| "parse_format [] (Some n) = None"
| "parse_format (c # cs) cnt =
     (case digit_of_char c of
        Some d \<Rightarrow> parse_format cs (Some (10 * (case cnt of None \<Rightarrow> 0 | Some n \<Rightarrow> n) + d))
      | None \<Rightarrow>
          (case code_of_char c of
             None \<Rightarrow> None
           | Some k \<Rightarrow>
               (case parse_format cs None of
                  None \<Rightarrow> None
                | Some items \<Rightarrow> Some ((k, (case cnt of None \<Rightarrow> 1 | Some n \<Rightarrow> n)) # items))))"

fun code_size :: "fcode \<Rightarrow> nat" where
  "code_size Ci = 4"
| "code_size Cq = 8"
| "code_size CB = 1"
| "code_size CH = 2"
| "code_size CI = 4"
| "code_size CQ = 8"
| "code_size Cf = 4"
| "code_size Cd = 8"
| "code_size Cbool = 1"
| "code_size Cs = 1"

text \<open>Native alignment: every code is aligned to its own size (\<^verbatim>\<open>s\<close> is a char array).\<close>

definition code_align :: "fcode \<Rightarrow> nat" where
  "code_align k = code_size k"

definition align_up :: "nat \<Rightarrow> nat \<Rightarrow> nat" where
  "align_up n a = ((n + a - 1) div a) * a"

fun items_size :: "nat \<Rightarrow> (fcode \<times> nat) list \<Rightarrow> nat" where
  "items_size acc [] = acc"
| "items_size acc ((k, n) # items) = items_size (align_up acc (code_align k) + n * code_size k) items"

text \<open>The number of arguments a format takes: one for \<^verbatim>\<open>s\<close>, the count otherwise.\<close>

fun items_args :: "(fcode \<times> nat) list \<Rightarrow> nat" where
  "items_args [] = 0"
| "items_args ((k, n) # items) = (if k = Cs then 1 else n) + items_args items"


text \<open>Truth value of a Python value (\<^verbatim>\<open>bool(v)\<close>); a float is false when it is \<open>\<plusminus>0\<close>.\<close>

fun py_truth :: "pyval \<Rightarrow> bool" where
  "py_truth PyNone = False"
| "py_truth (PyBool b) = b"
| "py_truth (PyInt n) = (n \<noteq> 0)"
| "py_truth (PyFloat w) = (take_bit 63 w \<noteq> 0)"
| "py_truth (PyStr s) = (s \<noteq> [])"
| "py_truth (PyBytes b) = (b \<noteq> [])"

definition int_in_range :: "fcode \<Rightarrow> int \<Rightarrow> bool" where
  "int_in_range k n =
     (if k = Ci then - (2 ^ 31) \<le> n \<and> n < 2 ^ 31
      else if k = Cq then - (2 ^ 63) \<le> n \<and> n < 2 ^ 63
      else 0 \<le> n \<and> n < 2 ^ (8 * code_size k))"

definition pack_int :: "fcode \<Rightarrow> pyval \<Rightarrow> exn + byte list" where
  "pack_int k v =
     (case v of
        PyInt n \<Rightarrow> if int_in_range k n then Inr (le_bytes (code_size k) n) else Inl StructError
      | PyBool b \<Rightarrow> Inr (le_bytes (code_size k) (if b then 1 else 0))
      | _ \<Rightarrow> Inl StructError)"

text \<open>
  The argument of \<^verbatim>\<open>f\<close> and \<^verbatim>\<open>d\<close> as a float: a float, or an int or bool converted to
  one; anything else, and an int too large for a float, is a \<^verbatim>\<open>struct.error\<close>.
\<close>

definition as_f64 :: "float_ops \<Rightarrow> pyval \<Rightarrow> exn + 64 word" where
  "as_f64 fp v =
     (case v of
        PyFloat w \<Rightarrow> Inr w
      | PyInt n \<Rightarrow> (case f64_of_int fp n of None \<Rightarrow> Inl StructError | Some w \<Rightarrow> Inr w)
      | PyBool b \<Rightarrow> Inr (if b then 0x3FF0000000000000 else 0)
      | _ \<Rightarrow> Inl StructError)"

definition pack_one :: "float_ops \<Rightarrow> fcode \<Rightarrow> pyval \<Rightarrow> exn + byte list" where
  "pack_one fp k v =
     (if k = Cbool then Inr [if py_truth v then 1 else 0]
      else if k = Cd then
        (case as_f64 fp v of Inl e \<Rightarrow> Inl e | Inr w \<Rightarrow> Inr (le_bytes 8 (uint w)))
      else if k = Cf then
        (case as_f64 fp v of
           Inl e \<Rightarrow> Inl e
         | Inr w \<Rightarrow> (case f32_of_f64 fp w of None \<Rightarrow> Inl OverflowError | Some x \<Rightarrow> Inr (le_bytes 4 (uint x))))
      else pack_int k v)"

text \<open>\<^verbatim>\<open>s\<close> with count \<open>n\<close>: the bytes object cut or zero-padded to \<open>n\<close> bytes.\<close>

definition pack_s :: "nat \<Rightarrow> pyval \<Rightarrow> exn + byte list" where
  "pack_s n v =
     (case v of
        PyBytes b \<Rightarrow> Inr (take n b @ replicate (n - length b) 0)
      | _ \<Rightarrow> Inl StructError)"

definition pad_to :: "byte list \<Rightarrow> nat \<Rightarrow> byte list" where
  "pad_to acc a = acc @ replicate (align_up (length acc) a - length acc) 0"

fun pack_items :: "float_ops \<Rightarrow> (fcode \<times> nat) list \<Rightarrow> pyval list \<Rightarrow> byte list \<Rightarrow> exn + byte list" where
  "pack_items fp [] vs acc = Inr acc"
| "pack_items fp ((k, n) # items) vs acc =
     (if k = Cs then
        (case vs of
           [] \<Rightarrow> Inl StructError
         | v # vs' \<Rightarrow>
             (case pack_s n v of
                Inl e \<Rightarrow> Inl e
              | Inr b \<Rightarrow> pack_items fp items vs' (acc @ b)))
      else
        (case n of
           0 \<Rightarrow> pack_items fp items vs (pad_to acc (code_align k))
         | Suc m \<Rightarrow>
             (case vs of
                [] \<Rightarrow> Inl StructError
              | v # vs' \<Rightarrow>
                  (case pack_one fp k v of
                     Inl e \<Rightarrow> Inl e
                   | Inr b \<Rightarrow> pack_items fp ((k, m) # items) vs' (pad_to acc (code_align k) @ b)))))"

text \<open>
  \<^verbatim>\<open>struct.pack(fmt, *vs)\<close>: the format is parsed, the number of arguments is
  checked, then the values are encoded in order.
\<close>

definition struct_pack :: "float_ops \<Rightarrow> string \<Rightarrow> pyval list \<Rightarrow> exn + byte list" where
  "struct_pack fp fmt vs =
     (case parse_format fmt None of
        None \<Rightarrow> Inl StructError
      | Some items \<Rightarrow>
          if length vs \<noteq> items_args items then Inl StructError
          else pack_items fp items vs [])"

definition unpack_one :: "float_ops \<Rightarrow> fcode \<Rightarrow> byte list \<Rightarrow> pyval" where
  "unpack_one fp k b =
     (if k = Cbool then PyBool (le_int b \<noteq> 0)
      else if k = Cd then PyFloat (word_of_int (le_int b))
      else if k = Cf then PyFloat (f64_of_f32 fp (word_of_int (le_int b)))
      else if k = Ci \<or> k = Cq then PyInt (le_sint b)
      else PyInt (le_int b))"

text \<open>Decoding walks the buffer with the offset reached so far.\<close>

fun unpack_items :: "float_ops \<Rightarrow> (fcode \<times> nat) list \<Rightarrow> byte list \<Rightarrow> nat \<Rightarrow> pyval list" where
  "unpack_items fp [] buf off = []"
| "unpack_items fp ((k, n) # items) buf off =
     (if k = Cs then PyBytes (take n (drop off buf)) # unpack_items fp items buf (off + n)
      else
        (case n of
           0 \<Rightarrow> unpack_items fp items buf (align_up off (code_align k))
         | Suc m \<Rightarrow>
             (let start = align_up off (code_align k)
              in unpack_one fp k (take (code_size k) (drop start buf))
                   # unpack_items fp ((k, m) # items) buf (start + code_size k))))"

definition struct_unpack :: "float_ops \<Rightarrow> string \<Rightarrow> byte list \<Rightarrow> exn + pyval list" where
  "struct_unpack fp fmt buf =
     (case parse_format fmt None of
        None \<Rightarrow> Inl StructError
      | Some items \<Rightarrow>
          if length buf \<noteq> items_size 0 items then Inl StructError
          else Inr (unpack_items fp items buf 0))"

subsection \<open>Text\<close>

function dec_str :: "nat \<Rightarrow> string" where
  "dec_str n = (if n < 10 then [char_of (48 + n)] else dec_str (n div 10) @ [char_of (48 + n mod 10)])"
  by pat_completeness auto
termination
  by (relation "measure id") auto

text \<open>\<^verbatim>\<open>str(v)\<close>; for a bytes object this is its \<^verbatim>\<open>repr\<close>, as in \<^verbatim>\<open>"b'hi\\x00'"\<close>.\<close>

definition hex_digit :: "nat \<Rightarrow> char" where
  "hex_digit n = (if n < 10 then char_of (48 + n) else char_of (87 + n))"

definition repr_byte :: "char \<Rightarrow> byte \<Rightarrow> string" where
  "repr_byte quote b =
     (let n = unat b; c = char_of n in
      if c = quote \<or> n = 92 then [CHR 0x5C, c]
      else if n = 9 then [CHR 0x5C, CHR ''t'']
      else if n = 10 then [CHR 0x5C, CHR ''n'']
      else if n = 13 then [CHR 0x5C, CHR ''r'']
      else if n < 32 \<or> 127 \<le> n then [CHR 0x5C, CHR ''x'', hex_digit (n div 16), hex_digit (n mod 16)]
      else [c])"

definition repr_bytes :: "byte list \<Rightarrow> string" where
  "repr_bytes bs =
     (let quote = (if 39 \<in> set bs \<and> 34 \<notin> set bs then CHR 0x22 else CHR 0x27)
      in CHR ''b'' # quote # concat (map (repr_byte quote) bs) @ [quote])"

definition py_str :: "float_ops \<Rightarrow> pyval \<Rightarrow> string" where
  "py_str fp v =
     (case v of
        PyNone \<Rightarrow> ''None''
      | PyBool b \<Rightarrow> (if b then ''True'' else ''False'')
      | PyInt n \<Rightarrow> (if n < 0 then CHR ''-'' # dec_str (nat (- n)) else dec_str (nat n))
      | PyFloat w \<Rightarrow> str_of_f64 fp w
      | PyStr s \<Rightarrow> s
      | PyBytes b \<Rightarrow> repr_bytes b)"

text \<open>\<^verbatim>\<open>str.encode(s)\<close>: UTF-8, one byte below 128 and two bytes from 128 to 255.\<close>

definition utf8_char :: "char \<Rightarrow> byte list" where
  "utf8_char c =
     (let n = of_char c :: nat in
      if n < 128 then [of_nat n] else [of_nat (192 + n div 64), of_nat (128 + n mod 64)])"

definition str_encode :: "string \<Rightarrow> byte list" where
  "str_encode s = concat (map utf8_char s)"

text \<open>
  \<^verbatim>\<open>int(s)\<close> on a str or a bytes object: white space is stripped at both ends, then
  come an optional sign and decimal digits, where single underscores may stand
  between digits. The white space stripped from a bytes object is the ASCII one (tab
  to carriage return, and the space); in a str the code points U+0085 and U+00A0
  count as well (every white space from U+007F on is read as a space; the
  separators U+001C to U+001F are not stripped).
\<close>

definition is_ascii_blank :: "char \<Rightarrow> bool" where
  "is_ascii_blank c = (let n = of_char c :: nat in (9 \<le> n \<and> n \<le> 13) \<or> n = 32)"

definition is_blank :: "char \<Rightarrow> bool" where
  "is_blank c = (let n = of_char c :: nat in is_ascii_blank c \<or> n = 133 \<or> n = 160)"

definition strip :: "(char \<Rightarrow> bool) \<Rightarrow> string \<Rightarrow> string" where
  "strip blank s = rev (dropWhile blank (rev (dropWhile blank s)))"

fun digits_value :: "string \<Rightarrow> nat \<Rightarrow> bool \<Rightarrow> nat option" where
  "digits_value [] acc after_digit = (if after_digit then Some acc else None)"
| "digits_value (c # cs) acc after_digit =
     (case digit_of_char c of
        Some d \<Rightarrow> digits_value cs (10 * acc + d) True
      | None \<Rightarrow> if c = CHR ''_'' \<and> after_digit then digits_value cs acc False else None)"

definition int_literal :: "(char \<Rightarrow> bool) \<Rightarrow> string \<Rightarrow> int option" where
  "int_literal blank s =
     (case strip blank s of
        [] \<Rightarrow> None
      | c # cs \<Rightarrow>
          if c = CHR ''-'' then map_option (\<lambda>n. - int n) (digits_value cs 0 False)
          else if c = CHR ''+'' then map_option int (digits_value cs 0 False)
          else map_option int (digits_value (c # cs) 0 False))"

definition int_of_str :: "string \<Rightarrow> int option" where
  "int_of_str s = int_literal is_blank s"

definition bytes_text :: "byte list \<Rightarrow> string" where
  "bytes_text bs = map (\<lambda>b. char_of (unat b)) bs"

definition int_of_bytes :: "byte list \<Rightarrow> int option" where
  "int_of_bytes bs = int_literal is_ascii_blank (bytes_text bs)"

subsection \<open>The converters of a descriptor\<close>

text \<open>\<^verbatim>\<open>def str_store(s): return str.encode(str(s))\<close>\<close>

definition str_store :: "float_ops \<Rightarrow> pyval \<Rightarrow> pyval" where
  "str_store fp s = PyBytes (str_encode (py_str fp s))"

text \<open>
  \<^verbatim>\<open>def convert_string(v):
      if type(v) == str: return str.encode(v)
      return v\<close>
\<close>

definition convert_string :: "pyval \<Rightarrow> pyval" where
  "convert_string v = (case v of PyStr s \<Rightarrow> PyBytes (str_encode s) | _ \<Rightarrow> v)"

text \<open>Calling an element of \<^verbatim>\<open>dtypes\<close>: \<^verbatim>\<open>int\<close>, \<^verbatim>\<open>float\<close>, \<^verbatim>\<open>bool\<close> or \<^verbatim>\<open>str_store\<close>.\<close>

definition py_int :: "float_ops \<Rightarrow> pyval \<Rightarrow> exn + pyval" where
  "py_int fp v =
     (case v of
        PyNone \<Rightarrow> Inl TypeError
      | PyBool b \<Rightarrow> Inr (PyInt (if b then 1 else 0))
      | PyInt n \<Rightarrow> Inr (PyInt n)
      | PyFloat w \<Rightarrow> (case int_of_f64 fp w of Inl e \<Rightarrow> Inl e | Inr n \<Rightarrow> Inr (PyInt n))
      | PyStr s \<Rightarrow> (case int_of_str s of None \<Rightarrow> Inl ValueError | Some n \<Rightarrow> Inr (PyInt n))
      | PyBytes b \<Rightarrow> (case int_of_bytes b of None \<Rightarrow> Inl ValueError | Some n \<Rightarrow> Inr (PyInt n)))"

definition py_float :: "float_ops \<Rightarrow> pyval \<Rightarrow> exn + pyval" where
  "py_float fp v =
     (case v of
        PyNone \<Rightarrow> Inl TypeError
      | PyBool b \<Rightarrow> Inr (PyFloat (if b then 0x3FF0000000000000 else 0))
      | PyInt n \<Rightarrow> (case f64_of_int fp n of None \<Rightarrow> Inl OverflowError | Some w \<Rightarrow> Inr (PyFloat w))
      | PyFloat w \<Rightarrow> Inr (PyFloat w)
      | PyStr s \<Rightarrow> (case f64_of_str fp s of None \<Rightarrow> Inl ValueError | Some w \<Rightarrow> Inr (PyFloat w))
      | PyBytes b \<Rightarrow> (case f64_of_bytes fp b of None \<Rightarrow> Inl ValueError | Some w \<Rightarrow> Inr (PyFloat w)))"

fun call_dtype :: "float_ops \<Rightarrow> dtype_fn \<Rightarrow> pyval \<Rightarrow> exn + pyval" where
  "call_dtype fp Py_int v = py_int fp v"
| "call_dtype fp Py_float v = py_float fp v"
| "call_dtype fp Py_bool v = Inr (PyBool (py_truth v))"
| "call_dtype fp Str_store v = Inr (str_store fp v)"

subsection \<open>The store and its backing resource\<close>

datatype Mode = READONLY | WRITE | APPEND | READONCE

text \<open>
  \<^verbatim>\<open>self.f\<close> is \<^verbatim>\<open>None\<close>, a plain file object or an \<^verbatim>\<open>mmap\<close> object (closed flag,
  position, mapped size, writable); \<^verbatim>\<open>self._f\<close> is \<^verbatim>\<open>None\<close> or a file object.
\<close>

datatype fobj = FNone | FPlain bool nat | FMmap bool nat nat bool

datatype fhandle = HNone | HFile bool

datatype access = AccNone | ACCESS_READ | ACCESS_WRITE

record store =
  rowbytes :: nat
  pack_format :: string
  colnames :: "string list"
  dtypes :: "dtype_fn list"
  N :: int
  mode :: Mode
  fobj :: fobj
  fhandle :: fhandle
  data :: "byte list"
  meta_N :: int

text \<open>\<^verbatim>\<open>self.f.seek(offset, 0)\<close>\<close>

definition f_seek :: "store \<Rightarrow> int \<Rightarrow> (exn + unit) \<times> store" where
  "f_seek s off =
     (case fobj s of
        FNone \<Rightarrow> (Inl AttributeError, s)
      | FPlain c p \<Rightarrow>
          if c then (Inl ValueError, s)
          else if off < 0 then (Inl IOError, s)
          else (Inr (), s\<lparr>fobj := FPlain c (nat off)\<rparr>)
      | FMmap c p sz w \<Rightarrow>
          if c then (Inl ValueError, s)
          else if off < 0 \<or> int sz < off then (Inl ValueError, s)
          else (Inr (), s\<lparr>fobj := FMmap c (nat off) sz w\<rparr>))"

text \<open>\<^verbatim>\<open>self.f.read(n)\<close>: what is left of the file from the position on, at most \<open>n\<close> bytes.\<close>

definition f_read :: "store \<Rightarrow> nat \<Rightarrow> (exn + byte list) \<times> store" where
  "f_read s n =
     (case fobj s of
        FNone \<Rightarrow> (Inl AttributeError, s)
      | FPlain c p \<Rightarrow>
          if c then (Inl ValueError, s)
          else (let b = take n (drop p (data s)) in (Inr b, s\<lparr>fobj := FPlain c (p + length b)\<rparr>))
      | FMmap c p sz w \<Rightarrow>
          if c then (Inl ValueError, s)
          else (let b = take n (drop p (take sz (data s)))
                in (Inr b, s\<lparr>fobj := FMmap c (p + length b) sz w\<rparr>)))"

text \<open>
  \<^verbatim>\<open>self.f.write(b)\<close>: a mapping is written in place and never grows; a plain file
  object of this class is opened for reading only.
\<close>

definition f_write :: "store \<Rightarrow> byte list \<Rightarrow> (exn + unit) \<times> store" where
  "f_write s b =
     (case fobj s of
        FNone \<Rightarrow> (Inl AttributeError, s)
      | FPlain c p \<Rightarrow> if c then (Inl ValueError, s) else (Inl IOError, s)
      | FMmap c p sz w \<Rightarrow>
          if c then (Inl ValueError, s)
          else if \<not> w then (Inl TypeError, s)
          else if sz < p \<or> sz - p < length b then (Inl ValueError, s)
          else (Inr (), s\<lparr>data := take p (data s) @ b @ drop (p + length b) (data s),
                             fobj := FMmap c (p + length b) sz w\<rparr>))"

text \<open>\<^verbatim>\<open>mmap.mmap(self._f.fileno(), 0, access=access)\<close> with the local \<^verbatim>\<open>access\<close>, which may be unbound.\<close>

definition mmap_new :: "store \<Rightarrow> access option \<Rightarrow> (exn + unit) \<times> store" where
  "mmap_new s a =
     (case a of
        None \<Rightarrow> (Inl UnboundLocalError, s)
      | Some AccNone \<Rightarrow> (Inl TypeError, s)
      | Some acc \<Rightarrow>
          if data s = [] then (Inl ValueError, s)
          else (Inr (), s\<lparr>fobj := FMmap False 0 (length (data s)) (acc = ACCESS_WRITE)\<rparr>))"

text \<open>
  \<^verbatim>\<open>def _openfile(self):
      fname = self.fname
      mode = self.mode
      if mode == Mode.APPEND:
          self._f = open(fname, 'rb+')
          access = None
      if mode == Mode.READONLY:
          self._f = open(fname, 'rb')
          access = mmap.ACCESS_READ
      elif mode == Mode.READONCE:
          self.f = open(fname, 'rb')
      else:
          self._f = open(fname, 'r+b')
          access = mmap.ACCESS_WRITE
      if self._f is not None:
          self.f = mmap.mmap(self._f.fileno(), 0, access=access)
      else:
          self.f = self._f\<close>
\<close>

definition openfile :: "store \<Rightarrow> (exn + unit) \<times> store" where
  "openfile s =
     (let (s1, access1) =
            (if mode s = APPEND then (s\<lparr>fhandle := HFile False\<rparr>, Some AccNone) else (s, None));
          (s2, access2) =
            (if mode s = READONLY then (s1\<lparr>fhandle := HFile False\<rparr>, Some ACCESS_READ)
             else if mode s = READONCE then (s1\<lparr>fobj := FPlain False 0\<rparr>, access1)
             else (s1\<lparr>fhandle := HFile False\<rparr>, Some ACCESS_WRITE))
      in if fhandle s2 \<noteq> HNone then mmap_new s2 access2
         else (Inr (), s2\<lparr>fobj := FNone\<rparr>))"

text \<open>
  \<^verbatim>\<open>def close(self):
      self.f.close()
      self._f.close()\<close>
\<close>

definition close :: "store \<Rightarrow> (exn + unit) \<times> store" where
  "close s =
     (case fobj s of
        FNone \<Rightarrow> (Inl AttributeError, s)
      | _ \<Rightarrow>
          (let s1 = s\<lparr>fobj := (case fobj s of
                                  FPlain c p \<Rightarrow> FPlain True p
                                | FMmap c p sz w \<Rightarrow> FMmap True p sz w
                                | FNone \<Rightarrow> FNone)\<rparr>
           in case fhandle s1 of
                HNone \<Rightarrow> (Inl AttributeError, s1)
              | HFile c \<Rightarrow> (Inr (), s1\<lparr>fhandle := HFile True\<rparr>)))"

text \<open>\<^verbatim>\<open>def __len__(self): return self.N\<close>\<close>

definition len_store :: "store \<Rightarrow> int" where
  "len_store s = N s"

subsection \<open>Reading a row\<close>

text \<open>
  The last step of \<^verbatim>\<open>get\<close> on each field:
  \<^verbatim>\<open>str(x).replace("\x00","") if isinstance(x, (str, bytes)) else x\<close>
\<close>

definition strip_field :: "float_ops \<Rightarrow> pyval \<Rightarrow> pyval" where
  "strip_field fp x =
     (case x of
        PyStr t \<Rightarrow> PyStr (filter (\<lambda>c. c \<noteq> CHR 0x00) (py_str fp x))
      | PyBytes b \<Rightarrow> PyStr (filter (\<lambda>c. c \<noteq> CHR 0x00) (py_str fp x))
      | _ \<Rightarrow> x)"

text \<open>
  \<^verbatim>\<open>def get(self, idx):
      if idx >= self.N or idx < 0:
          raise IndexError(...)
      offset = idx * self.rowbytes
      try:
          self.f.seek(offset,0)
      except ValueError:
          ...
          raise IndexError("out or range %d"%idx)
      _bytes = self.f.read(self.rowbytes)
      res = struct.unpack(self.pack_format, _bytes)
      if "s" not in self.pack_format:
          return res
      else:
          return tuple([ str(x).replace("\x00","")
                         if isinstance(x, (str, bytes)) else x for x in res ])\<close>
\<close>

definition get :: "float_ops \<Rightarrow> store \<Rightarrow> int \<Rightarrow> (exn + pyval list) \<times> store" where
  "get fp s idx =
     (if idx \<ge> N s \<or> idx < 0 then (Inl IndexError, s)
      else
        (let offset = idx * int (rowbytes s) in
         case f_seek s offset of
           (Inl e, s1) \<Rightarrow> (if e = ValueError then (Inl IndexError, s1) else (Inl e, s1))
         | (Inr u, s1) \<Rightarrow>
             (case f_read s1 (rowbytes s1) of
                (Inl e, s2) \<Rightarrow> (Inl e, s2)
              | (Inr bytes, s2) \<Rightarrow>
                  (case struct_unpack fp (pack_format s2) bytes of
                     Inl e \<Rightarrow> (Inl e, s2)
                   | Inr res \<Rightarrow>
                       if CHR ''s'' \<notin> set (pack_format s2) then (Inr res, s2)
                       else (Inr (map (strip_field fp) res), s2)))))"

text \<open>
  \<^verbatim>\<open>def getDict(self, idx):
      return {name:v for name, v in zip(self.colnames, self.get(idx))}\<close>
\<close>

definition getDict :: "float_ops \<Rightarrow> store \<Rightarrow> int \<Rightarrow> (exn + (string \<rightharpoonup> pyval)) \<times> store" where
  "getDict fp s idx =
     (case get fp s idx of
        (Inl e, s1) \<Rightarrow> (Inl e, s1)
      | (Inr row, s1) \<Rightarrow> (Inr (map_of (rev (zip (colnames s1) row))), s1))"

subsection \<open>Writing a row\<close>

text \<open>
  \<^verbatim>\<open>v = [dtype(v) for dtype,v in zip(self.dtypes, row)]\<close>: the converted values, or
  the first exception a converter raises.
\<close>

fun convert_row :: "float_ops \<Rightarrow> dtype_fn list \<Rightarrow> pyval list \<Rightarrow> exn + pyval list" where
  "convert_row fp (d # ds) (v # vs) =
     (case call_dtype fp d v of
        Inl e \<Rightarrow> Inl e
      | Inr x \<Rightarrow> (case convert_row fp ds vs of Inl e \<Rightarrow> Inl e | Inr xs \<Rightarrow> Inr (x # xs)))"
| "convert_row fp ds vs = Inr []"

text \<open>
  The lines added to the message by
  \<^verbatim>\<open>for i,(dtype,v) in enumerate(zip(self.dtypes, row)):
      try: dtype(v)
      except:
          message.append("\tFor column %r can't convert %r to %s"%(
              self.colnames[i], v, dtype))\<close>
  where \<^verbatim>\<open>self.colnames[i]\<close> raises \<^verbatim>\<open>IndexError\<close> when there is no such name.
\<close>

fun failure_notes :: "float_ops \<Rightarrow> string list \<Rightarrow> nat \<Rightarrow> dtype_fn list \<Rightarrow> pyval list \<Rightarrow> exn + convert_note list" where
  "failure_notes fp names i (d # ds) (v # vs) =
     (case call_dtype fp d v of
        Inr x \<Rightarrow> failure_notes fp names (Suc i) ds vs
      | Inl e \<Rightarrow>
          if i < length names then
            (case failure_notes fp names (Suc i) ds vs of
               Inl e' \<Rightarrow> Inl e'
             | Inr notes \<Rightarrow> Inr (CantConvert (names ! i) v d # notes))
          else Inl IndexError)"
| "failure_notes fp names i ds vs = Inr []"

text \<open>
  \<^verbatim>\<open>def putRow(self, idx, row):
      if idx >= self.N:
          raise IndexError(...)
      if len(row) != len(self.dtypes):
          raise ValueError(...)
      try:
          v = [dtype(v) for dtype,v in zip(self.dtypes, row)]
      except TypeError as e:
          message = [str(e)]
          for ...                      # see failure_notes
          raise TypeError("\n".join(message))
      offset = idx * self.rowbytes
      self.f.seek(offset,0)
      try:
          bytes = struct.pack(self.pack_format, *[convert_string(x) for x  in row])
      except struct.error:
          logging.exception(...)
          raise
      try:
          self.f.write(bytes)
      except Exception as e:
          logging.error(...)
          raise\<close>
\<close>

definition putRow :: "float_ops \<Rightarrow> store \<Rightarrow> int \<Rightarrow> pyval list \<Rightarrow> (exn + unit) \<times> store" where
  "putRow fp s idx row =
     (if idx \<ge> N s then (Inl IndexError, s)
      else if length row \<noteq> length (dtypes s) then (Inl ValueError, s)
      else
        (case convert_row fp (dtypes s) row of
           Inl e \<Rightarrow>
             if e = TypeError then
               (case failure_notes fp (colnames s) 0 (dtypes s) row of
                  Inl e' \<Rightarrow> (Inl e', s)
                | Inr notes \<Rightarrow> (Inl (TypeErrorMessage notes), s))
             else (Inl e, s)
         | Inr v \<Rightarrow>
             (let offset = idx * int (rowbytes s) in
              case f_seek s offset of
                (Inl e, s1) \<Rightarrow> (Inl e, s1)
              | (Inr u, s1) \<Rightarrow>
                  (case struct_pack fp (pack_format s1) (map convert_string row) of
                     Inl e \<Rightarrow> (Inl e, s1)
                   | Inr bytes \<Rightarrow> f_write s1 bytes))))"

text \<open>
  \<^verbatim>\<open>def write(self, row):
      bytes = struct.pack(self.pack_format, *row)
      self.f.write(bytes)\<close>
\<close>

definition write_row :: "float_ops \<Rightarrow> store \<Rightarrow> pyval list \<Rightarrow> (exn + unit) \<times> store" where
  "write_row fp s row =
     (case struct_pack fp (pack_format s) row of
        Inl e \<Rightarrow> (Inl e, s)
      | Inr bytes \<Rightarrow> f_write s bytes)"

subsection \<open>Adding blank rows\<close>

text \<open>
  Writing through a plain file object at a position: inside the file the bytes are
  replaced, past its end the gap is filled with zero bytes.
\<close>

definition write_at :: "byte list \<Rightarrow> nat \<Rightarrow> byte list \<Rightarrow> byte list" where
  "write_at d p b =
     (if p \<le> length d then take p d @ b @ drop (p + length b) d
      else d @ replicate (p - length d) 0 @ b)"

text \<open>
  \<^verbatim>\<open>def appendBlankRows(self, M):
      if self.mode != Mode.APPEND:
          raise IOError(...)
      self.close()
      _f = open(self.fname, 'rb+')
      if M < 1:
          raise ValueError(...)
      self.close()
      _f.seek(self.rowbytes * (self.N + M))
      _f.write(b'\0')
      self.N += M
      _f.close()
      opts = None
      with open(os.path.join(self.directory, "__rawformat__"), 'rb') as rawformat:
          opts = pickle.load(rawformat)
      opts['N'] = self.N
      with open(os.path.join(self.directory, "__rawformat__"), 'wb') as rawformat:
          pickle.dump(opts, rawformat)
      self._openfile()\<close>
  A seek of the local file object to a negative position fails with \<^verbatim>\<open>OSError\<close>
  (which is \<^verbatim>\<open>IOError\<close>).
\<close>

definition appendBlankRows :: "store \<Rightarrow> int \<Rightarrow> (exn + unit) \<times> store" where
  "appendBlankRows s M =
     (if mode s \<noteq> APPEND then (Inl IOError, s)
      else
        (case close s of
           (Inl e, s1) \<Rightarrow> (Inl e, s1)
         | (Inr u, s1) \<Rightarrow>
             if M < 1 then (Inl ValueError, s1)
             else
               (case close s1 of
                  (Inl e, s2) \<Rightarrow> (Inl e, s2)
                | (Inr u, s2) \<Rightarrow>
                    (let target = int (rowbytes s2) * (N s2 + M) in
                     if target < 0 then (Inl IOError, s2)
                     else
                       (let s3 = s2\<lparr>data := write_at (data s2) (nat target) [0]\<rparr>;
                            s4 = s3\<lparr>N := N s3 + M\<rparr>;
                            s5 = s4\<lparr>meta_N := N s4\<rparr>
                        in openfile s5)))))"

subsection \<open>Scanning a column\<close>

text \<open>
  The loop of the generator \<^verbatim>\<open>getColByIdx\<close>, run to its end: the values it yields,
  in order, and the exception its body ends with (the loop has no other exit).
  \<^verbatim>\<open>while 1:
      bytes = self.f.read(nbytes)
      if bytes == '':
          raise StopIteration
      try:
          yield struct.unpack(pack_format, bytes)
      except struct.error:
          if len(bytes) != nbytes:
              raise StopIteration
          raise
      try:
          self.f.seek(offset, 0)
      except ValueError:
          raise StopIteration
      offset += self.rowbytes\<close>
  A bytes object is never equal to the text \<^verbatim>\<open>''\<close>, so the first test does not fire.
  Nothing in the loop bounds the number of rounds; the first argument is the number
  of rounds the model may run, and the result is \<open>None\<close> when they do not suffice.
\<close>

fun col_loop :: "nat \<Rightarrow> float_ops \<Rightarrow> store \<Rightarrow> nat \<Rightarrow> string \<Rightarrow> int \<Rightarrow> (pyval list list \<times> exn \<times> store) option" where
  "col_loop 0 fp s nbytes fmt offset = None"
| "col_loop (Suc fuel) fp s nbytes fmt offset =
     (case f_read s nbytes of
        (Inl e, s1) \<Rightarrow> Some ([], e, s1)
      | (Inr bytes, s1) \<Rightarrow>
          (case struct_unpack fp fmt bytes of
             Inl e \<Rightarrow>
               if e = StructError then
                 (if length bytes \<noteq> nbytes then Some ([], StopIteration, s1) else Some ([], e, s1))
               else Some ([], e, s1)
           | Inr vals \<Rightarrow>
               (case f_seek s1 offset of
                  (Inl e, s2) \<Rightarrow>
                    if e = ValueError then Some ([vals], StopIteration, s2) else Some ([vals], e, s2)
                | (Inr u, s2) \<Rightarrow>
                    (case col_loop fuel fp s2 nbytes fmt (offset + int (rowbytes s2)) of
                       None \<Rightarrow> None
                     | Some (ys, e, s3) \<Rightarrow> Some (vals # ys, e, s3)))))"

text \<open>\<^verbatim>\<open>[dtype(0) for dtype in dtypes]\<close>\<close>

fun call_all :: "float_ops \<Rightarrow> dtype_fn list \<Rightarrow> pyval \<Rightarrow> exn + pyval list" where
  "call_all fp [] v = Inr []"
| "call_all fp (d # ds) v =
     (case call_dtype fp d v of
        Inl e \<Rightarrow> Inl e
      | Inr x \<Rightarrow> (case call_all fp ds v of Inl e \<Rightarrow> Inl e | Inr xs \<Rightarrow> Inr (x # xs)))"

text \<open>
  \<^verbatim>\<open>def getColByIdx(self, column):
      skip_format = self.pack_format[:column]
      offset = len(struct.pack(skip_format,
                               *[dtype(0) for dtype in self.dtypes[:column]]))
      pack_format = self.pack_format[column]
      nbytes = len(struct.pack(pack_format, self.dtypes[column](0)))
      skip = offset - nbytes
      self.f.seek(offset,0)
      offset += self.rowbytes
      while 1: ...\<close>
  The column is a position from the left (not negative). An exception before the
  loop is raised at the first request for a value, with nothing yielded.
\<close>

definition getColByIdx_body :: "nat \<Rightarrow> float_ops \<Rightarrow> store \<Rightarrow> nat \<Rightarrow> (pyval list list \<times> exn \<times> store) option" where
  "getColByIdx_body fuel fp s column =
     (let skip_format = take column (pack_format s) in
      case call_all fp (take column (dtypes s)) (PyInt 0) of
        Inl e \<Rightarrow> Some ([], e, s)
      | Inr zeros \<Rightarrow>
          (case struct_pack fp skip_format zeros of
             Inl e \<Rightarrow> Some ([], e, s)
           | Inr skipped \<Rightarrow>
               if column \<ge> length (pack_format s) then Some ([], IndexError, s)
               else if column \<ge> length (dtypes s) then Some ([], IndexError, s)
               else
                 (let fmt = [pack_format s ! column] in
                  case call_dtype fp (dtypes s ! column) (PyInt 0) of
                    Inl e \<Rightarrow> Some ([], e, s)
                  | Inr zero \<Rightarrow>
                      (case struct_pack fp fmt [zero] of
                         Inl e \<Rightarrow> Some ([], e, s)
                       | Inr one \<Rightarrow>
                           (let offset = int (length skipped); nbytes = length one in
                            case f_seek s offset of
                              (Inl e, s1) \<Rightarrow> Some ([], e, s1)
                            | (Inr u, s1) \<Rightarrow>
                                col_loop fuel fp s1 nbytes fmt (offset + int (rowbytes s1)))))))"

text \<open>
  What the consumer of the generator gets: the values yielded, and the exception that
  ends it, where a \<^verbatim>\<open>StopIteration\<close> raised by the body has become \<^verbatim>\<open>RuntimeError\<close>.
\<close>

definition generator_raises :: "exn \<Rightarrow> exn" where
  "generator_raises e = (if e = StopIteration then RuntimeError else e)"

definition getColByIdx :: "nat \<Rightarrow> float_ops \<Rightarrow> store \<Rightarrow> nat \<Rightarrow> (pyval list list \<times> exn \<times> store) option" where
  "getColByIdx fuel fp s column =
     (case getColByIdx_body fuel fp s column of
        None \<Rightarrow> None
      | Some (ys, e, s1) \<Rightarrow> Some (ys, generator_raises e, s1))"

text \<open>
  \<^verbatim>\<open>def getCol(self, column_name):
      idx = self.colnames.index(column_name)
      return self.getColByIdx(idx)\<close>
  \<^verbatim>\<open>list.index\<close> raises \<^verbatim>\<open>ValueError\<close> for a name that is not in the list.
\<close>

fun index_of :: "string list \<Rightarrow> string \<Rightarrow> nat option" where
  "index_of [] x = None"
| "index_of (y # ys) x = (if y = x then Some 0 else map_option Suc (index_of ys x))"

definition getCol :: "nat \<Rightarrow> float_ops \<Rightarrow> store \<Rightarrow> string \<Rightarrow> (exn + (pyval list list \<times> exn \<times> store)) option" where
  "getCol fuel fp s column_name =
     (case index_of (colnames s) column_name of
        None \<Rightarrow> Some (Inl ValueError)
      | Some idx \<Rightarrow> map_option Inr (getColByIdx fuel fp s idx))"

subsection \<open>Iterating over the rows\<close>

text \<open>
  \<^verbatim>\<open>class RawStoreIter:
      def __init__(self, raw):
          self.raw = raw
          self.i = -1
      def next(self):
          self.i += 1
          if self.i >= self.raw.N:
              raise StopIteration()
          return self.raw.get(self.i)\<close>
  and \<^verbatim>\<open>def __iter__(self): return RawStoreIter(self)\<close> of the store.
\<close>

record RawStoreIter =
  raw :: store
  i :: int

definition iter :: "store \<Rightarrow> RawStoreIter" where
  "iter s = \<lparr>raw = s, i = - 1\<rparr>"

definition iter_next :: "float_ops \<Rightarrow> RawStoreIter \<Rightarrow> (exn + pyval list) \<times> RawStoreIter" where
  "iter_next fp it =
     (let it1 = it\<lparr>i := i it + 1\<rparr> in
      if i it1 \<ge> N (raw it1) then (Inl StopIteration, it1)
      else (case get fp (raw it1) (i it1) of (r, s1) \<Rightarrow> (r, it1\<lparr>raw := s1\<rparr>)))"

text \<open>
  The methods the class \<^verbatim>\<open>RawStoreIter\<close> defines. The built-in \<^verbatim>\<open>iter\<close>, and with it
  the \<^verbatim>\<open>for\<close> statement, calls \<^verbatim>\<open>__iter__\<close> of the store and requires of the object
  returned a method \<^verbatim>\<open>__next__\<close>; without it \<^verbatim>\<open>iter\<close> raises \<^verbatim>\<open>TypeError\<close> and the
  statement runs its body for no row.
\<close>

definition RawStoreIter_methods :: "string list" where
  "RawStoreIter_methods = [''__init__'', ''next'']"

definition builtin_iter :: "store \<Rightarrow> exn + RawStoreIter" where
  "builtin_iter s =
     (let it = iter s
      in if ''__next__'' \<in> set RawStoreIter_methods then Inr it else Inl TypeError)"

subsection \<open>Opening and creating a store\<close>

text \<open>
  The directory: whether it exists, the unpickled \<^verbatim>\<open>__rawformat__\<close> and the bytes
  of \<^verbatim>\<open>__store___\<close>, each absent or present.
\<close>

record descr =
  d_rowbytes :: nat
  d_pack_format :: string
  d_colnames :: "string list"
  d_dtypes :: "dtype_fn list"
  d_N :: int

record disk =
  dir_exists :: bool
  rawformat :: "descr option"
  storefile :: "byte list option"

text \<open>
  \<^verbatim>\<open>def __init__(self, directory, mode=Mode.READONLY):
      if not os.path.exists(directory):
          raise IOError(...)
      self.directory = directory
      with open(os.path.join(directory, "__rawformat__"), 'rb') as rawformat:
          self.__dict__.update(pickle.load(rawformat))
      fname = self.fname = os.path.join(directory, "__store___")
      self._f = None
      self.mode = mode
      self._openfile()\<close>
  Opening a file that does not exist fails with \<^verbatim>\<open>IOError\<close>.
\<close>

definition RawStore_init :: "disk \<Rightarrow> Mode \<Rightarrow> exn + store" where
  "RawStore_init dsk m =
     (if \<not> dir_exists dsk then Inl IOError
      else
        (case rawformat dsk of
           None \<Rightarrow> Inl IOError
         | Some d \<Rightarrow>
             (case storefile dsk of
                None \<Rightarrow> Inl IOError
              | Some bytes \<Rightarrow>
                  (case openfile \<lparr>rowbytes = d_rowbytes d, pack_format = d_pack_format d,
                                  colnames = d_colnames d, dtypes = d_dtypes d, N = d_N d,
                                  mode = m, fobj = FNone, fhandle = HNone,
                                  data = bytes, meta_N = d_N d\<rparr> of
                     (Inl e, s) \<Rightarrow> Inl e
                   | (Inr u, s) \<Rightarrow> Inr s))))"

text \<open>
  The logical types a column specification can name: the numpy scalar types the
  code compares with, a dtype whose \<^verbatim>\<open>type\<close> is \<^verbatim>\<open>numpy.string_\<close> (with its
  \<^verbatim>\<open>itemsize\<close>), any other object that has an attribute \<^verbatim>\<open>type\<close> (such as
  \<^verbatim>\<open>numpy.dtype('float16')\<close> or \<^verbatim>\<open>numpy.dtype('U4')\<close>), and any object without one.
\<close>

datatype np_dtype =
    Np_int32 | Np_int64 | Np_uint8 | Np_uint16 | Np_uint32 | Np_uint64
  | Np_float32 | Np_float64 | Np_bool
  | Np_string nat
  | Np_other_dtype
  | Np_object

text \<open>
  One round of the loop of \<^verbatim>\<open>MakeStore\<close> over \<^verbatim>\<open>cols\<close>: the branch taken for the
  logical type sets the local \<^verbatim>\<open>type\<close> (unbound before the first assignment) and
  appends to \<^verbatim>\<open>dtypes\<close>.
  \<^verbatim>\<open>if dtype == numpy.int32:
      type = "i"
      dtypes.append(int)
  elif ...
  elif dtype == numpy.bool:
      type = "?"
      dtypes.append(bool)
  elif hasattr(dtype, 'type'): # for strings
      if dtype.type == numpy.string_:
          size = dtype.itemsize
          type = "%ss"%size
          dtypes.append(str_store)
  else:
      raise ValueError("Unhandled numpy type %s"%dtype)\<close>
\<close>

fun type_step :: "np_dtype \<Rightarrow> string option \<Rightarrow> dtype_fn list \<Rightarrow> exn + (string option \<times> dtype_fn list)" where
  "type_step Np_int32 ty dts = Inr (Some ''i'', dts @ [Py_int])"
| "type_step Np_int64 ty dts = Inr (Some ''q'', dts @ [Py_int])"
| "type_step Np_uint8 ty dts = Inr (Some ''B'', dts @ [Py_int])"
| "type_step Np_uint16 ty dts = Inr (Some ''H'', dts @ [Py_int])"
| "type_step Np_uint32 ty dts = Inr (Some ''I'', dts @ [Py_int])"
| "type_step Np_uint64 ty dts = Inr (Some ''Q'', dts @ [Py_int])"
| "type_step Np_float32 ty dts = Inr (Some ''f'', dts @ [Py_float])"
| "type_step Np_float64 ty dts = Inr (Some ''d'', dts @ [Py_float])"
| "type_step Np_bool ty dts = Inr (Some ''?'', dts @ [Py_bool])"
| "type_step (Np_string sz) ty dts = Inr (Some (dec_str sz @ ''s''), dts @ [Str_store])"
| "type_step Np_other_dtype ty dts = Inr (ty, dts)"
| "type_step Np_object ty dts = Inl ValueError"

text \<open>
  \<^verbatim>\<open>for name, dtype in cols:
      names.append(name)
      ...                      # type_step
      types.append(type)\<close>
\<close>

fun map_cols :: "(string \<times> np_dtype) list \<Rightarrow> string list \<Rightarrow> string list \<Rightarrow> dtype_fn list \<Rightarrow> string option
                   \<Rightarrow> exn + (string list \<times> string list \<times> dtype_fn list)" where
  "map_cols [] types names dts ty = Inr (types, names, dts)"
| "map_cols ((name, dtype) # cols) types names dts ty =
     (case type_step dtype ty dts of
        Inl e \<Rightarrow> Inl e
      | Inr (ty', dts') \<Rightarrow>
          (case ty' of
             None \<Rightarrow> Inl UnboundLocalError
           | Some t \<Rightarrow> map_cols cols (types @ [t]) (names @ [name]) dts' ty'))"

text \<open>
  \<^verbatim>\<open>def MakeStore(cols, N, directory, checkDirectoryExists=True):
      if not os.path.exists(directory):
          os.mkdir(directory)
      else:
          if checkDirectoryExists:
              raise IOError(...)
      if not N:
          raise ValueError(...)
      ...                      # map_cols
      pack_format = "".join(types)
      rowbytes = len(struct.pack(pack_format,
                                 *[d(0) for d in dtypes]))
      with open(os.path.join(directory, "__rawformat__"), 'wb') as rawformat:
          pickle.dump({'rowbytes':rowbytes, 'pack_format':pack_format,
                       'colnames': names, 'dtypes': dtypes, 'N': N}, rawformat)
      fname = os.path.join(directory, "__store___")
      with open(fname, 'wb') as f:
          f.seek(rowbytes*N)
          f.write(b'\0')
      return RawStore(directory, Mode.WRITE)\<close>
  The result is the store or the exception, together with the directory as the call
  leaves it.
\<close>

definition MakeStore :: "float_ops \<Rightarrow> (string \<times> np_dtype) list \<Rightarrow> int \<Rightarrow> disk \<Rightarrow> bool \<Rightarrow> (exn + store) \<times> disk" where
  "MakeStore fp cols n dsk checkDirectoryExists =
     (if dir_exists dsk \<and> checkDirectoryExists then (Inl IOError, dsk)
      else
        (let d1 = dsk\<lparr>dir_exists := True\<rparr> in
         if n = 0 then (Inl ValueError, d1)
         else
           (case map_cols cols [] [] [] None of
              Inl e \<Rightarrow> (Inl e, d1)
            | Inr (types, names, dts) \<Rightarrow>
                (let fmt = concat types in
                 case call_all fp dts (PyInt 0) of
                   Inl e \<Rightarrow> (Inl e, d1)
                 | Inr zeros \<Rightarrow>
                     (case struct_pack fp fmt zeros of
                        Inl e \<Rightarrow> (Inl e, d1)
                      | Inr packed \<Rightarrow>
                          (let rb = length packed;
                               d2 = d1\<lparr>rawformat := Some \<lparr>d_rowbytes = rb, d_pack_format = fmt,
                                                           d_colnames = names, d_dtypes = dts, d_N = n\<rparr>\<rparr>
                           in if int rb * n < 0 then (Inl IOError, d2\<lparr>storefile := Some []\<rparr>)
                              else
                                (let d3 = d2\<lparr>storefile := Some (write_at [] (nat (int rb * n)) [0])\<rparr>
                                 in (RawStore_init d3 WRITE, d3))))))))"

subsection \<open>Descriptors derived from a column specification, and the file they describe\<close>

text \<open>
  \<^verbatim>\<open>MakeStore\<close> emits every code but \<^verbatim>\<open>s\<close> without a count, and pairs each code with
  a converter.
\<close>

definition plain_items :: "(fcode \<times> nat) list \<Rightarrow> bool" where
  "plain_items items = list_all (\<lambda>(k, n). k = Cs \<or> n = 1) items"

fun code_dtype :: "fcode \<Rightarrow> dtype_fn" where
  "code_dtype Cf = Py_float"
| "code_dtype Cd = Py_float"
| "code_dtype Cbool = Py_bool"
| "code_dtype Cs = Str_store"
| "code_dtype k = Py_int"

text \<open>
  The descriptor of a store has the shape \<^verbatim>\<open>MakeStore\<close> gives it: the format parses,
  \<^verbatim>\<open>rowbytes\<close> is its packed size, and names and converters go with its codes.
\<close>

definition descr_ok :: "store \<Rightarrow> bool" where
  "descr_ok s =
     (case parse_format (pack_format s) None of
        None \<Rightarrow> False
      | Some items \<Rightarrow>
          plain_items items \<and> rowbytes s = items_size 0 items
          \<and> dtypes s = map (\<lambda>(k, n). code_dtype k) items
          \<and> length (colnames s) = length items)"

text \<open>The data file holds \<open>N\<close> rows and the one byte written at its end on creation.\<close>

definition file_ok :: "store \<Rightarrow> bool" where
  "file_ok s = (0 \<le> N s \<and> length (data s) = nat (N s) * rowbytes s + 1)"

text \<open>\<^verbatim>\<open>self.f\<close> is an open mapping of the whole data file and \<^verbatim>\<open>self._f\<close> a file object.\<close>

definition mapped :: "store \<Rightarrow> bool" where
  "mapped s =
     ((case fobj s of FMmap c p sz w \<Rightarrow> \<not> c \<and> sz = length (data s) | _ \<Rightarrow> False)
      \<and> fhandle s \<noteq> HNone)"


text \<open>\<^verbatim>\<open>self.f\<close> and \<^verbatim>\<open>self._f\<close> are both closed.\<close>

definition closed :: "store \<Rightarrow> bool" where
  "closed s =
     ((case fobj s of FMmap c p sz w \<Rightarrow> c | FPlain c p \<Rightarrow> c | FNone \<Rightarrow> False)
      \<and> fhandle s = HFile True)"

text \<open>The bytes of row \<open>k\<close> in the data file.\<close>

definition row_bytes :: "store \<Rightarrow> nat \<Rightarrow> byte list" where
  "row_bytes s k = take (rowbytes s) (drop (k * rowbytes s) (data s))"


subsection \<open>Concrete stores for the examples\<close>

text \<open>
  A platform description for examples without floats: it converts zero exactly and
  nothing else.
\<close>

definition zero_float_ops :: float_ops where
  "zero_float_ops =
     \<lparr>f32_of_f64 = (\<lambda>w. if w = 0 then Some 0 else None),
      f64_of_f32 = (\<lambda>w. 0),
      f64_of_int = (\<lambda>n. if n = 0 then Some 0 else None),
      f64_of_str = (\<lambda>t. None),
      f64_of_bytes = (\<lambda>b. None),
      int_of_f64 = (\<lambda>w. if w = 0 then Inr 0 else Inl ValueError),
      str_of_f64 = (\<lambda>w. ''0.0'')\<rparr>"

definition no_dir :: disk where
  "no_dir = \<lparr>dir_exists = False, rawformat = None, storefile = None\<rparr>"


definition scenario_disk :: disk where
  "scenario_disk =
     \<lparr>dir_exists = True,
      rawformat = Some \<lparr>d_rowbytes = 8, d_pack_format = ''i4s'', d_colnames = [''a'', ''b''],
                        d_dtypes = [Py_int, Str_store], d_N = 3\<rparr>,
      storefile = Some (replicate 25 0)\<rparr>"

definition scenario_store :: "Mode \<Rightarrow> fobj \<Rightarrow> fhandle \<Rightarrow> store" where
  "scenario_store m fo fh =
     \<lparr>rowbytes = 8, pack_format = ''i4s'', colnames = [''a'', ''b''],
      dtypes = [Py_int, Str_store], N = 3, mode = m, fobj = fo, fhandle = fh,
      data = replicate 25 0, meta_N = 3\<rparr>"

subsection \<open>Running an iterator\<close>

text \<open>The results of \<open>n\<close> calls of \<^verbatim>\<open>next\<close> in a row, and the iterator after them.\<close>

fun iter_take :: "nat \<Rightarrow> float_ops \<Rightarrow> RawStoreIter \<Rightarrow> (exn + pyval list) list \<times> RawStoreIter" where
  "iter_take 0 fp it = ([], it)"
| "iter_take (Suc n) fp it =
     (case iter_next fp it of
        (r, it1) \<Rightarrow> (case iter_take n fp it1 of (rs, it2) \<Rightarrow> (r # rs, it2)))"

text \<open>A store with the position of \<^verbatim>\<open>self.f\<close> put back to 0.\<close>

definition rewind :: "store \<Rightarrow> store" where
  "rewind s =
     s\<lparr>fobj := (case fobj s of
                  FNone \<Rightarrow> FNone
                | FPlain c p \<Rightarrow> FPlain c 0
                | FMmap c p sz w \<Rightarrow> FMmap c 0 sz w)\<rparr>"

subsection \<open>The columns of a row that do not convert\<close>

text \<open>
  For each position of the row whose converter raises, in order, the note naming the
  column, the value and the converter.
\<close>

definition failed_columns :: "float_ops \<Rightarrow> string list \<Rightarrow> dtype_fn list \<Rightarrow> pyval list \<Rightarrow> convert_note list" where
  "failed_columns fp names ds row =
     map (\<lambda>j. CantConvert (names ! j) (row ! j) (ds ! j))
       (filter (\<lambda>j. isl (call_dtype fp (ds ! j) (row ! j))) [0..<length row])"

text \<open>A store with columns \<^verbatim>\<open>[("a", int32), ("b", int32)]\<close> and three rows, open for writing.\<close>

definition pair_store :: store where
  "pair_store =
     \<lparr>rowbytes = 8, pack_format = ''ii'', colnames = [''a'', ''b''],
      dtypes = [Py_int, Py_int], N = 3, mode = WRITE, fobj = FMmap False 0 25 True,
      fhandle = HFile False, data = replicate 25 0, meta_N = 3\<rparr>"

subsection \<open>What a supported column contributes to a descriptor\<close>




subsection \<open>Columns of a store without fixed-bytes columns\<close>

text \<open>
  A format whose characters are codes other than \<^verbatim>\<open>s\<close>: one character for each
  column, as \<^verbatim>\<open>MakeStore\<close> writes it when no column is a fixed-bytes column.
\<close>

definition scalar_format :: "string \<Rightarrow> bool" where
  "scalar_format fmt = list_all (\<lambda>ch. ch \<noteq> CHR ''s'' \<and> code_of_char ch \<noteq> None) fmt"

text \<open>The platform converts the integer 0 to a float and that float to a float32.\<close>

definition zero_ok :: "float_ops \<Rightarrow> bool" where
  "zero_ok fp =
     (case f64_of_int fp 0 of
        None \<Rightarrow> False
      | Some w \<Rightarrow> (case f32_of_f64 fp w of None \<Rightarrow> False | Some x \<Rightarrow> True))"

text \<open>A store with the single column \<^verbatim>\<open>("a", uint8)\<close> and three rows, open for writing.\<close>

definition byte_store :: store where
  "byte_store =
     \<lparr>rowbytes = 1, pack_format = ''B'', colnames = [''a''],
      dtypes = [Py_int], N = 3, mode = WRITE, fobj = FMmap False 0 4 True,
      fhandle = HFile False, data = replicate 4 0, meta_N = 3\<rparr>"

text \<open>A store with the columns \<^verbatim>\<open>[("a", uint8), ("b", int32)]\<close> and three rows, open for writing.\<close>

definition padded_store :: store where
  "padded_store =
     \<lparr>rowbytes = 8, pack_format = ''Bi'', colnames = [''a'', ''b''],
      dtypes = [Py_int, Py_int], N = 3, mode = WRITE, fobj = FMmap False 0 25 True,
      fhandle = HFile False, data = replicate 25 0, meta_N = 3\<rparr>"

subsection \<open>Rows that \<^verbatim>\<open>putRow\<close> takes, and what is read back\<close>




text \<open>
  A store with columns \<^verbatim>\<open>[("a", int32), ("b", fixed_bytes(4)), ("c", float32), ("d", bool)]\<close>
  and three rows, open for writing.
\<close>

definition mixed_store :: store where
  "mixed_store =
     \<lparr>rowbytes = 13, pack_format = ''i4sf?'', colnames = [''a'', ''b'', ''c'', ''d''],
      dtypes = [Py_int, Str_store, Py_float, Py_bool], N = 3, mode = WRITE,
      fobj = FMmap False 0 40 True, fhandle = HFile False, data = replicate 40 0, meta_N = 3\<rparr>"

section \<open>Properties\<close>

subsection \<open>The scenario store\<close>


subsection \<open>A closed mapping\<close>

lemma get_closed_mmap:
  "fobj s = FMmap True p sz w \<Longrightarrow> fst (get fp s idx) = Inl IndexError"
  by (simp add: get_def f_seek_def Let_def)

subsection \<open>C10: a refused growth leaves the handle closed\<close>

text \<open>
  C10. On a store opened for appending, \<^verbatim>\<open>appendBlankRows(M)\<close> with \<open>M < 1\<close> raises
  \<^verbatim>\<open>ValueError\<close> only after \<^verbatim>\<open>self.close()\<close> has run: the mapping and the file object
  are closed when the call fails, so the handle is no longer usable (every
  \<^verbatim>\<open>get\<close> fails), while the row count and the bytes of the file are as before.
\<close>

theorem appendBlankRows_nonpositive_leaves_closed:
  assumes "mode s = APPEND" and "mapped s" and "M < 1"
  shows "fst (appendBlankRows s M) = Inl ValueError
         \<and> closed (snd (appendBlankRows s M))
         \<and> \<not> mapped (snd (appendBlankRows s M))
         \<and> fst (get fp (snd (appendBlankRows s M)) idx) = Inl IndexError
         \<and> data (snd (appendBlankRows s M)) = data s
         \<and> N (snd (appendBlankRows s M)) = N s"
proof -
  from \<open>mapped s\<close> obtain p sz w hc where f: "fobj s = FMmap False p sz w" and h: "fhandle s = HFile hc"
    by (cases "fobj s"; cases "fhandle s") (auto simp: mapped_def)
  have "appendBlankRows s M = (Inl ValueError, s\<lparr>fobj := FMmap True p sz w, fhandle := HFile True\<rparr>)"
    using assms(1,3) f h by (simp add: appendBlankRows_def close_def Let_def)
  then show ?thesis
    by (simp add: closed_def mapped_def get_closed_mmap)
qed

theorem appendBlankRows_nonpositive_witness:
  "mode (scenario_store APPEND (FMmap False 0 25 True) (HFile False)) = APPEND
   \<and> mapped (scenario_store APPEND (FMmap False 0 25 True) (HFile False))
   \<and> (0::int) < 1
   \<and> appendBlankRows (scenario_store APPEND (FMmap False 0 25 True) (HFile False)) 0
       = (Inl ValueError, scenario_store APPEND (FMmap True 0 25 True) (HFile True))
   \<and> fst (get zero_float_ops (scenario_store APPEND (FMmap True 0 25 True) (HFile True)) 0) = Inl IndexError"
proof -
  let ?s = "scenario_store APPEND (FMmap False 0 25 True) (HFile False)"
  have m: "mode ?s = APPEND" by (simp add: scenario_store_def)
  have o: "mapped ?s" by (simp add: scenario_store_def mapped_def)
  have e: "appendBlankRows ?s 0 = (Inl ValueError, scenario_store APPEND (FMmap True 0 25 True) (HFile True))"
    by code_simp
  from appendBlankRows_nonpositive_leaves_closed [OF m o, of 0 zero_float_ops 0] e m o
  show ?thesis by simp
qed

subsection \<open>C8: the read-once mode\<close>

text \<open>
  C8 says that a store opened with \<^verbatim>\<open>Mode.READONCE\<close> is backed by a plain file object
  on which \<^verbatim>\<open>get\<close> returns the row of every index in range. In \<^verbatim>\<open>_openfile\<close> the
  file object is assigned to \<^verbatim>\<open>self.f\<close> and then replaced by \<^verbatim>\<open>self._f\<close>, which is
  \<^verbatim>\<open>None\<close> in this mode: the scenario directory opens, and \<^verbatim>\<open>get\<close> raises
  \<^verbatim>\<open>AttributeError\<close> at each of its three rows.
\<close>

theorem READONCE_get_raises_AttributeError:
  "RawStore_init scenario_disk READONCE = Inr (scenario_store READONCE FNone HNone)
   \<and> fst (get zero_float_ops (scenario_store READONCE FNone HNone) 0) = Inl AttributeError
   \<and> fst (get zero_float_ops (scenario_store READONCE FNone HNone) 1) = Inl AttributeError
   \<and> fst (get zero_float_ops (scenario_store READONCE FNone HNone) 2) = Inl AttributeError"
  by code_simp

subsection \<open>C6: logical types without an encoding\<close>

text \<open>
  C6 says that a logical type without a fixed-width encoding makes \<^verbatim>\<open>MakeStore\<close> fail
  with the unsupported-type error (the \<^verbatim>\<open>ValueError\<close> of its last branch). That
  branch is reached only by an object without an attribute \<^verbatim>\<open>type\<close>. A dtype
  object that is not a byte string, such as \<^verbatim>\<open>numpy.dtype('float16')\<close>, enters the
  branch for strings, which assigns nothing and raises nothing: after an \<^verbatim>\<open>int32\<close>
  column the format gets a second \<^verbatim>\<open>i\<close> with no converter and \<^verbatim>\<open>struct.pack\<close> raises
  \<^verbatim>\<open>struct.error\<close>; as the first column it leaves \<^verbatim>\<open>type\<close> unbound. In each case
  the directory has been made and holds no file.
\<close>

theorem MakeStore_other_dtype_raises_StructError:
  "MakeStore zero_float_ops [(''a'', Np_int32), (''b'', Np_other_dtype)] 3 no_dir True
     = (Inl StructError, no_dir\<lparr>dir_exists := True\<rparr>)
   \<and> MakeStore zero_float_ops [(''b'', Np_other_dtype)] 3 no_dir True
     = (Inl UnboundLocalError, no_dir\<lparr>dir_exists := True\<rparr>)
   \<and> MakeStore zero_float_ops [(''b'', Np_object)] 3 no_dir True
     = (Inl ValueError, no_dir\<lparr>dir_exists := True\<rparr>)"
  by code_simp

subsection \<open>C4: indices out of range\<close>

text \<open>
  C4 says that \<^verbatim>\<open>get\<close> and \<^verbatim>\<open>putRow\<close> both raise \<^verbatim>\<open>IndexError\<close> for an index below 0
  or from \<open>N\<close> on. \<^verbatim>\<open>get\<close> tests both bounds; \<^verbatim>\<open>putRow\<close> tests only
  \<^verbatim>\<open>idx >= self.N\<close>. On the scenario store \<^verbatim>\<open>putRow(-1, (7, "hi"))\<close> reaches
  \<^verbatim>\<open>self.f.seek(-8, 0)\<close> and raises the \<^verbatim>\<open>ValueError\<close> of the mapping; the file is
  not modified.
\<close>

theorem putRow_negative_index_raises_ValueError:
  "putRow zero_float_ops (scenario_store WRITE (FMmap False 0 25 True) (HFile False)) (- 1) [PyInt 7, PyStr ''hi'']
     = (Inl ValueError, scenario_store WRITE (FMmap False 0 25 True) (HFile False))
   \<and> fst (get zero_float_ops (scenario_store WRITE (FMmap False 0 25 True) (HFile False)) (- 1)) = Inl IndexError"
  by code_simp

subsection \<open>C9: iterating over the rows\<close>

text \<open>\<^verbatim>\<open>get\<close> moves the position of \<^verbatim>\<open>self.f\<close> and depends on nothing it moves.\<close>

lemma get_rewind: "fst (get fp (rewind s) k) = fst (get fp s k)"
  by (cases "fobj s") (auto simp: get_def rewind_def f_seek_def f_read_def Let_def split: sum.splits)

lemma rewind_get: "rewind (snd (get fp s k)) = rewind s"
  by (cases "fobj s") (auto simp: get_def rewind_def f_seek_def f_read_def Let_def split: sum.splits)

lemma N_get: "N (snd (get fp s k)) = N s"
  by (cases "fobj s") (auto simp: get_def f_seek_def f_read_def Let_def split: sum.splits)

lemma get_cong_rewind: "rewind s = rewind s' \<Longrightarrow> fst (get fp s k) = fst (get fp s' k)"
  by (metis get_rewind)

lemma N_rewind: "N (rewind s) = N s"
  by (simp add: rewind_def)

lemma N_cong_rewind: "rewind s = rewind s' \<Longrightarrow> N s = N s'"
  by (metis N_rewind)

lemma iter_take_gen:
  "fst (iter_take n fp it)
     = map (\<lambda>k. if N (raw it) \<le> i it + 1 + int k then Inl StopIteration
                 else fst (get fp (raw it) (i it + 1 + int k))) [0..<n]
   \<and> rewind (raw (snd (iter_take n fp it))) = rewind (raw it)
   \<and> i (snd (iter_take n fp it)) = i it + int n"
proof (induction n arbitrary: it)
  case 0
  then show ?case by simp
next
  case (Suc n)
  define F where "F j = (if N (raw it) \<le> j then Inl StopIteration else fst (get fp (raw it) j))" for j
  obtain r it1 where nx: "iter_next fp it = (r, it1)" by (cases "iter_next fp it")
  have r: "r = F (i it + 1)"
    and i1: "i it1 = i it + 1" and rw: "rewind (raw it1) = rewind (raw it)"
    using nx rewind_get [of fp "raw it" "i it + 1"]
    by (auto simp: F_def iter_next_def Let_def split: prod.splits if_splits)
  have N1: "N (raw it1) = N (raw it)" using rw by (rule N_cong_rewind)
  have g: "\<And>k. fst (get fp (raw it1) k) = fst (get fp (raw it) k)"
    using rw by (rule get_cong_rewind)
  obtain rs it2 where tk: "iter_take n fp it1 = (rs, it2)" by (cases "iter_take n fp it1")
  have ar: "i it + 1 + 1 + int k = i it + 1 + int (Suc k)" for k by simp
  from Suc.IH [of it1] tk
  have "rs = map (\<lambda>k. F (i it + 1 + 1 + int k)) [0..<n]"
    and rw2: "rewind (raw it2) = rewind (raw it)" and i2: "i it2 = i it + 1 + int n"
    unfolding i1 N1 g rw F_def by simp_all
  then have rs: "rs = map (\<lambda>k. F (i it + 1 + int (Suc k))) [0..<n]"
    unfolding ar by simp
  have u: "[0..<Suc n] = 0 # map Suc [0..<n]"
    by (simp add: upt_conv_Cons map_Suc_upt del: upt_Suc)
  have "fst (iter_take (Suc n) fp it) = map (\<lambda>k. F (i it + 1 + int k)) [0..<Suc n]"
    unfolding u using nx tk r rs by (simp add: comp_def)
  moreover have "rewind (raw (snd (iter_take (Suc n) fp it))) = rewind (raw it)"
    using nx tk rw2 by simp
  moreover have "i (snd (iter_take (Suc n) fp it)) = i it + int (Suc n)"
    using nx tk i2 by simp
  ultimately show ?case unfolding F_def by blast
qed

text \<open>
  Calling the method \<^verbatim>\<open>next\<close> of a \<^verbatim>\<open>RawStoreIter\<close> by hand: the first \<open>N\<close> calls give what
  \<^verbatim>\<open>get(0)\<close>, \<^verbatim>\<open>get(1)\<close>, ..., \<^verbatim>\<open>get(N - 1)\<close> give, in this order; every later call
  raises \<^verbatim>\<open>StopIteration\<close>; and an object made afresh from the store, however far the
  first one has been stepped, gives the same rows again.
\<close>

lemma next_yields_rows_in_order:
  "fst (iter_take (nat (N s)) fp (iter s)) = map (\<lambda>k. fst (get fp s (int k))) [0..<nat (N s)]
   \<and> fst (iter_next fp (snd (iter_take (nat (N s) + m) fp (iter s)))) = Inl StopIteration
   \<and> fst (iter_take (nat (N s)) fp (iter (raw (snd (iter_take n fp (iter s))))))
       = map (\<lambda>k. fst (get fp s (int k))) [0..<nat (N s)]"
proof -
  have a: "fst (iter_take (nat (N t)) fp (iter t)) = map (\<lambda>k. fst (get fp t (int k))) [0..<nat (N t)]" for t
  proof -
    have "fst (iter_take (nat (N t)) fp (iter t))
            = map (\<lambda>k. if N t \<le> int k then Inl StopIteration else fst (get fp t (int k))) [0..<nat (N t)]"
      using iter_take_gen [of "nat (N t)" fp "\<lparr>raw = t, i = - 1\<rparr>"] by (simp add: iter_def)
    also have "\<dots> = map (\<lambda>k. fst (get fp t (int k))) [0..<nat (N t)]"
      by (rule map_cong) auto
    finally show ?thesis .
  qed
  have b: "fst (iter_next fp (snd (iter_take (nat (N s) + m) fp (iter s)))) = Inl StopIteration"
  proof -
    let ?it = "snd (iter_take (nat (N s) + m) fp \<lparr>raw = s, i = - 1\<rparr>)"
    from iter_take_gen [of "nat (N s) + m" fp "\<lparr>raw = s, i = - 1\<rparr>"]
    have "rewind (raw ?it) = rewind s" and "i ?it = - 1 + int (nat (N s) + m)"
      by simp_all
    then have "N (raw ?it) = N s" and "N s \<le> i ?it + 1"
      by (auto dest: N_cong_rewind)
    then show ?thesis by (simp add: iter_next_def iter_def Let_def)
  qed
  have c: "rewind (raw (snd (iter_take n fp (iter s)))) = rewind s"
    using iter_take_gen [of n fp "\<lparr>raw = s, i = - 1\<rparr>"] by (simp add: iter_def)
  have "fst (iter_take (nat (N s)) fp (iter (raw (snd (iter_take n fp (iter s))))))
       = map (\<lambda>k. fst (get fp s (int k))) [0..<nat (N s)]"
    using a [of "raw (snd (iter_take n fp (iter s)))"] N_cong_rewind [OF c] get_cong_rewind [OF c]
    by simp
  with a b show ?thesis by simp
qed

text \<open>
  C9 says that iterating over a store yields the rows \<^verbatim>\<open>get(0)\<close>, ..., \<^verbatim>\<open>get(N - 1)\<close>.
  The object \<^verbatim>\<open>__iter__\<close> returns has the method \<^verbatim>\<open>next\<close> and no method \<^verbatim>\<open>__next__\<close>, so
  \<^verbatim>\<open>iter(store)\<close>, and with it \<^verbatim>\<open>for row in store\<close>, raises \<^verbatim>\<open>TypeError\<close> on every store,
  before any row is read.
\<close>

theorem iter_store_raises_TypeError:
  "builtin_iter s = Inl TypeError"
  by (simp add: builtin_iter_def RawStoreIter_methods_def)

subsection \<open>C7: rows that do not convert\<close>

lemma MakeStore_pair:
  "fst (MakeStore zero_float_ops [(''a'', Np_int32), (''b'', Np_int32)] 3 no_dir True) = Inr pair_store"
  by code_simp

lemma upt_Suc_shift: "[0..<Suc n] = 0 # map Suc [0..<n]"
  by (simp add: upt_conv_Cons map_Suc_upt del: upt_Suc)

lemma failure_notes_eq:
  "length ds = length vs \<Longrightarrow> j0 + length ds \<le> length names \<Longrightarrow>
   failure_notes fp names j0 ds vs
     = Inr (map (\<lambda>j. CantConvert (names ! (j0 + j)) (vs ! j) (ds ! j))
             (filter (\<lambda>j. isl (call_dtype fp (ds ! j) (vs ! j))) [0..<length vs]))"
proof (induction ds arbitrary: vs j0)
  case Nil
  then show ?case by simp
next
  case (Cons d ds)
  then obtain v vs' where vs: "vs = v # vs'" by (cases vs) auto
  with Cons.prems have l: "length ds = length vs'" and b: "Suc j0 + length ds \<le> length names" and il: "j0 < length names"
    by auto
  note ih = Cons.IH [OF l b]
  have sh: "filter (\<lambda>j. isl (call_dtype fp ((d # ds) ! j) ((v # vs') ! j))) (map Suc [0..<length vs'])
          = map Suc (filter (\<lambda>j. isl (call_dtype fp (ds ! j) (vs' ! j))) [0..<length vs'])"
    by (simp add: filter_map comp_def)
  show ?case
    unfolding vs length_Cons upt_Suc_shift
    using ih il sh by (cases "call_dtype fp d v") (simp_all add: comp_def)
qed

text \<open>White space that \<^verbatim>\<open>int\<close> strips, and white space it does not.\<close>

lemma int_white_space:
  "py_int zero_float_ops (PyStr [CHR 0x1C, CHR ''1'', CHR ''2'']) = Inl ValueError
   \<and> py_int zero_float_ops (PyStr [CHR 0x85, CHR ''1'', CHR ''2'', CHR 0xA0]) = Inr (PyInt 12)
   \<and> py_int zero_float_ops (PyStr [CHR 0x09, CHR ''-'', CHR ''1'', CHR ''_'', CHR ''2'', CHR 0x0A]) = Inr (PyInt (- 12))
   \<and> py_int zero_float_ops (PyStr ''1__2'') = Inl ValueError
   \<and> py_int zero_float_ops (PyBytes [0xA0, 0x31, 0x32]) = Inl ValueError
   \<and> py_int zero_float_ops (PyBytes [0x1C, 0x31, 0x32]) = Inl ValueError
   \<and> py_int zero_float_ops (PyBytes [0x20, 0x31, 0x32, 0x0D]) = Inr (PyInt 12)"
  by code_simp

lemma putRow_white_space:
  "putRow zero_float_ops pair_store 0 [PyNone, PyBytes [0xA0, 0x31, 0x32]]
     = (Inl (TypeErrorMessage [CantConvert ''a'' PyNone Py_int,
                               CantConvert ''b'' (PyBytes [0xA0, 0x31, 0x32]) Py_int]), pair_store)
   \<and> putRow zero_float_ops pair_store 0 [PyStr [CHR 0x1C, CHR ''1'', CHR ''2''], PyNone]
     = (Inl ValueError, pair_store)"
  by code_simp

lemma putRow_other_failure:
  "idx < N s \<Longrightarrow> length row = length (dtypes s) \<Longrightarrow> convert_row fp (dtypes s) row = Inl e
   \<Longrightarrow> e \<noteq> TypeError \<Longrightarrow> putRow fp s idx row = (Inl e, s)"
  by (simp add: putRow_def)

text \<open>
  C7, as the code has it. For an index below \<open>N\<close> and a row of the right length: when
  the first value that does not convert raises \<^verbatim>\<open>TypeError\<close> (a \<^verbatim>\<open>None\<close> in an int or
  float column), \<^verbatim>\<open>putRow\<close> raises a \<^verbatim>\<open>TypeError\<close> whose message has one line for
  every column whose value does not convert, whatever its converter raises, in
  column order; nothing is written.
\<close>

theorem putRow_TypeError_enumerates_failed_columns:
  assumes "idx < N s" and "length row = length (dtypes s)"
    and "length (colnames s) = length (dtypes s)"
    and "convert_row fp (dtypes s) row = Inl TypeError"
  shows "putRow fp s idx row
           = (Inl (TypeErrorMessage (failed_columns fp (colnames s) (dtypes s) row)), s)"
  using assms failure_notes_eq [of "dtypes s" row 0 "colnames s" fp]
  by (simp add: putRow_def failed_columns_def)

theorem putRow_TypeError_witness:
  "(0::int) < N pair_store \<and> length [PyNone, PyNone] = length (dtypes pair_store)
   \<and> length (colnames pair_store) = length (dtypes pair_store)
   \<and> convert_row zero_float_ops (dtypes pair_store) [PyNone, PyNone] = Inl TypeError
   \<and> putRow zero_float_ops pair_store 0 [PyNone, PyNone]
       = (Inl (TypeErrorMessage [CantConvert ''a'' PyNone Py_int, CantConvert ''b'' PyNone Py_int]), pair_store)"
proof -
  have a: "(0::int) < N pair_store" by (simp add: pair_store_def)
  have b: "length [PyNone, PyNone] = length (dtypes pair_store)" by (simp add: pair_store_def)
  have c: "length (colnames pair_store) = length (dtypes pair_store)" by (simp add: pair_store_def)
  have d: "convert_row zero_float_ops (dtypes pair_store) [PyNone, PyNone] = Inl TypeError"
    by code_simp
  have e: "failed_columns zero_float_ops (colnames pair_store) (dtypes pair_store) [PyNone, PyNone]
             = [CantConvert ''a'' PyNone Py_int, CantConvert ''b'' PyNone Py_int]"
    by code_simp
  from putRow_TypeError_enumerates_failed_columns [OF a b c d] a b c d e
  show ?thesis by simp
qed

text \<open>
  C7 as stated fails: only \<^verbatim>\<open>TypeError\<close> is caught around the conversions. In the row
  \<^verbatim>\<open>("abc", None)\<close> for two int columns neither value converts; the first raises
  \<^verbatim>\<open>ValueError\<close>, which leaves \<^verbatim>\<open>putRow\<close> as it is and names no column.
\<close>

theorem putRow_ValueError_counterexample:
  "length [PyStr ''abc'', PyNone] = length (dtypes pair_store)
   \<and> isl (call_dtype zero_float_ops Py_int (PyStr ''abc''))
   \<and> isl (call_dtype zero_float_ops Py_int PyNone)
   \<and> putRow zero_float_ops pair_store 0 [PyStr ''abc'', PyNone] = (Inl ValueError, pair_store)"
  by code_simp

subsection \<open>Sizes of packed rows\<close>

lemma code_size_pos: "0 < code_size k"
  by (cases k) simp_all

lemma align_up_ge: "0 < a \<Longrightarrow> n \<le> align_up n a"
proof -
  assume a: "0 < a"
  have "n + a - 1 = (n + a - 1) div a * a + (n + a - 1) mod a" by simp
  moreover have "(n + a - 1) mod a < a" using a by simp
  ultimately show ?thesis unfolding align_up_def using a by linarith
qed

lemma align_up_mult: "0 < a \<Longrightarrow> align_up (m * a) a = m * a"
proof -
  assume a: "0 < a"
  have "(m * a + a - 1) div a = m"
  proof -
    have "m * a + a - 1 = (a - 1) + m * a" using a by simp
    moreover have "((a - 1) + m * a) div a = m + (a - 1) div a"
      using a by (intro div_mult_self1) simp
    moreover have "(a - 1) div a = 0" using a by simp
    ultimately show ?thesis by simp
  qed
  then show ?thesis by (simp add: align_up_def)
qed

lemma align_up_is_mult: "\<exists>m. align_up n a = m * a"
  unfolding align_up_def by (rule exI) (rule refl)

lemma align_up_idem_plus: "0 < a \<Longrightarrow> align_up (align_up n a + a) a = align_up n a + a"
proof -
  assume a: "0 < a"
  obtain m where m: "align_up n a = m * a" using align_up_is_mult by blast
  have "align_up (Suc m * a) a = Suc m * a" using a by (rule align_up_mult)
  then show ?thesis by (simp add: m add.commute)
qed

lemma length_pad_to: "0 < a \<Longrightarrow> length (pad_to acc a) = align_up (length acc) a"
  by (simp add: pad_to_def align_up_ge)

lemma pad_to_aligned: "align_up (length acc) a = length acc \<Longrightarrow> pad_to acc a = acc"
  by (simp add: pad_to_def)

lemma length_le_bytes: "length (le_bytes k n) = k"
  by (induction k arbitrary: n) simp_all

lemma length_pack_one: "pack_one fp k v = Inr b \<Longrightarrow> length b = code_size k"
  by (cases k) (auto simp: pack_one_def pack_int_def length_le_bytes split: sum.splits option.splits pyval.splits if_splits)

lemma length_pack_s: "pack_s n v = Inr b \<Longrightarrow> length b = n"
  by (auto simp: pack_s_def split: pyval.splits)

lemma pack_items_plain:
  assumes "k \<noteq> Cs"
  shows "pack_items fp ((k, Suc 0) # items) (v # vs) acc
           = (case pack_one fp k v of
                Inl e \<Rightarrow> Inl e
              | Inr b \<Rightarrow> pack_items fp items vs (pad_to acc (code_size k) @ b))"
proof (cases "pack_one fp k v")
  case (Inl e)
  with assms show ?thesis by (simp add: code_align_def)
next
  case (Inr b)
  let ?acc = "pad_to acc (code_size k) @ b"
  have "length ?acc = align_up (length acc) (code_size k) + code_size k"
    using Inr by (simp add: length_pad_to code_size_pos length_pack_one)
  then have "align_up (length ?acc) (code_size k) = length ?acc"
    by (simp add: align_up_idem_plus code_size_pos)
  then have "pad_to ?acc (code_size k) = ?acc" by (rule pad_to_aligned)
  with assms Inr show ?thesis by (simp add: code_align_def)
qed

lemma pack_items_s:
  "pack_items fp ((Cs, n) # items) (v # vs) acc
           = (case pack_s n v of
                Inl e \<Rightarrow> Inl e
              | Inr b \<Rightarrow> pack_items fp items vs (acc @ b))"
  by simp

lemma pack_items_no_args: "pack_items fp ((k, Suc 0) # items) [] acc = Inl StructError"
  by simp

lemma unpack_items_plain:
  "k \<noteq> Cs \<Longrightarrow> unpack_items fp ((k, Suc 0) # items) buf off
     = unpack_one fp k (take (code_size k) (drop (align_up off (code_size k)) buf))
         # unpack_items fp items buf (align_up off (code_size k) + code_size k)"
  by (simp add: Let_def code_align_def align_up_idem_plus code_size_pos)

lemma items_size_plain:
  "k \<noteq> Cs \<Longrightarrow> items_size acc ((k, Suc 0) # items) = items_size (align_up acc (code_size k) + code_size k) items"
  by (simp add: code_align_def)

lemma items_size_s:
  "items_size acc ((Cs, n) # items) = items_size (acc + n) items"
  by (simp add: code_align_def align_up_def)

lemma plain_items_Cons:
  "plain_items ((k, n) # items) = ((k = Cs \<or> n = Suc 0) \<and> plain_items items)"
  by (simp add: plain_items_def)

lemma pack_items_length:
  "plain_items items \<Longrightarrow> pack_items fp items vs acc = Inr b \<Longrightarrow> length b = items_size (length acc) items"
proof (induction items arbitrary: vs acc)
  case Nil
  then show ?case by simp
next
  case (Cons it items)
  obtain k n where it: "it = (k, n)" by (cases it)
  from Cons.prems(1) have pl: "plain_items items" and kn: "k = Cs \<or> n = Suc 0"
    by (simp_all add: it plain_items_Cons)
  show ?case
  proof (cases vs)
    case Nil
    with Cons.prems(2) kn show ?thesis by (auto simp: it split: if_splits)
  next
    case (Cons v vs')
    show ?thesis
    proof (cases "k = Cs")
      case True
      from Cons.prems(2) obtain pb where pb: "pack_s n v = Inr pb" and r: "pack_items fp items vs' (acc @ pb) = Inr b"
        unfolding it Cons True pack_items_s by (auto split: sum.splits)
      from Cons.IH [OF pl r] show ?thesis
        by (simp add: it True items_size_s length_pack_s [OF pb] del: items_size.simps)
    next
      case False
      with kn have n: "n = Suc 0" by simp
      from Cons.prems(2) obtain pb where pb: "pack_one fp k v = Inr pb"
        and r: "pack_items fp items vs' (pad_to acc (code_size k) @ pb) = Inr b"
        unfolding it Cons n pack_items_plain [OF False] by (auto split: sum.splits)
      from Cons.IH [OF pl r] show ?thesis
        by (simp add: it n items_size_plain [OF False] length_pack_one [OF pb] length_pad_to code_size_pos
            del: items_size.simps)
    qed
  qed
qed

subsection \<open>Decoding what was encoded\<close>

lemma le_int_le_bytes: "le_int (le_bytes k n) = n mod 2 ^ (8 * k)"
proof (induction k arbitrary: n)
  case 0
  then show ?case by simp
next
  case (Suc k)
  have "uint (word_of_int n :: byte) = n mod 256"
    by (simp add: uint_word_of_int take_bit_eq_mod)
  moreover have "n mod (256 * 2 ^ (8 * k)) = 256 * (n div 256 mod 2 ^ (8 * k)) + n mod 256"
    by (rule zmod_zmult2_eq) simp
  moreover have "(2::int) ^ (8 * Suc k) = 256 * 2 ^ (8 * k)" by (simp add: power_add)
  ultimately show ?case using Suc.IH [of "n div 256"] by (simp del: power_Suc)
qed

lemma sint_of_mod:
  fixes n H :: int
  assumes "- H \<le> n" and "n < H"
  shows "(if H \<le> n mod (2 * H) then n mod (2 * H) - 2 * H else n mod (2 * H)) = n"
proof (cases "0 \<le> n")
  case True
  then have "n mod (2 * H) = n" using assms(2) by simp
  then show ?thesis using assms(2) by simp
next
  case False
  have "n mod (2 * H) = (n + 2 * H) mod (2 * H)" by simp
  also have "\<dots> = n + 2 * H"
    using False assms(1) by (intro mod_pos_pos_trivial) auto
  finally have "n mod (2 * H) = n + 2 * H" .
  then show ?thesis using assms(1) by simp
qed

lemma le_sint_le_bytes:
  assumes "0 < k" and "- (2 ^ (8 * k - 1)) \<le> n" and "n < 2 ^ (8 * k - 1)"
  shows "le_sint (le_bytes k n) = n"
proof -
  have "8 * k = Suc (8 * k - 1)" using assms(1) by simp
  then have "(2::int) ^ (8 * k) = 2 ^ Suc (8 * k - 1)" by (rule arg_cong)
  also have "\<dots> = 2 * 2 ^ (8 * k - 1)" by (rule power_Suc)
  finally have M: "(2::int) ^ (8 * k) = 2 * 2 ^ (8 * k - 1)" .
  have ne: "le_bytes k n \<noteq> []" using assms(1) length_le_bytes [of k n] by auto
  have len: "length (le_bytes k n) = k" by (rule length_le_bytes)
  have "le_sint (le_bytes k n)
          = (if 2 ^ (8 * k - 1) \<le> n mod (2 * 2 ^ (8 * k - 1)) then n mod (2 * 2 ^ (8 * k - 1)) - 2 * 2 ^ (8 * k - 1)
             else n mod (2 * 2 ^ (8 * k - 1)))"
    unfolding le_sint_def le_int_le_bytes len Let_def M using ne by simp
  also have "\<dots> = n" using assms(2,3) by (rule sint_of_mod)
  finally show ?thesis .
qed

lemma unpack_pack_int:
  assumes "k \<noteq> Cs" "k \<noteq> Cf" "k \<noteq> Cd" "k \<noteq> Cbool" "int_in_range k n"
  shows "unpack_one fp k (le_bytes (code_size k) n) = PyInt n"
proof (cases "k = Ci \<or> k = Cq")
  case True
  then have "le_sint (le_bytes (code_size k) n) = n"
    using assms(5) by (intro le_sint_le_bytes) (auto simp: int_in_range_def)
  with True show ?thesis by (auto simp: unpack_one_def)
next
  case False
  then have "le_int (le_bytes (code_size k) n) = n"
    using assms unfolding le_int_le_bytes by (cases k) (auto simp: int_in_range_def)
  with False assms show ?thesis by (simp add: unpack_one_def)
qed

lemma str_encode_Nil: "(str_encode t = []) = (t = [])"
  by (cases t) (simp_all add: str_encode_def utf8_char_def Let_def)

lemma py_truth_convert_string: "py_truth (convert_string v) = py_truth v"
  by (cases v) (simp_all add: convert_string_def str_encode_Nil)

lemma unpack_pack_one:
  assumes "k \<noteq> Cs" and "k \<noteq> Cf" and "pack_one fp k (convert_string v) = Inr b"
  shows "call_dtype fp (code_dtype k) v = Inr (unpack_one fp k b)"
proof -
  consider (bool) "k = Cbool" | (dbl) "k = Cd" | (int) "k \<noteq> Cbool" "k \<noteq> Cd" by blast
  then show ?thesis
  proof cases
    case bool
    with assms(3) show ?thesis
      by (auto simp: pack_one_def unpack_one_def py_truth_convert_string split: if_splits)
  next
    case dbl
    have "word_of_int (uint w mod 2 ^ (8 * 8)) = (w :: 64 word)" for w
    proof -
      have "uint w mod 2 ^ (8 * 8) = uint w" using uint_lt2p [of w] by simp
      then show ?thesis by simp
    qed
    with dbl assms(3) show ?thesis
      by (cases v) (auto simp: pack_one_def unpack_one_def as_f64_def convert_string_def py_float_def
          le_int_le_bytes split: option.splits if_splits)
  next
    case int
    have ki: "code_dtype k = Py_int" using int assms(1,2) by (cases k) simp_all
    have pk: "pack_int k (convert_string v) = Inr b"
      using int assms by (simp add: pack_one_def)
    show ?thesis
    proof (cases v)
      case (PyInt n)
      with pk have "int_in_range k n" and "b = le_bytes (code_size k) n"
        by (auto simp: pack_int_def convert_string_def split: if_splits)
      with PyInt int assms(1,2) show ?thesis
        by (simp add: ki py_int_def unpack_pack_int)
    next
      case (PyBool t)
      with pk have b: "b = le_bytes (code_size k) (if t then 1 else 0)"
        by (auto simp: pack_int_def convert_string_def)
      have "int_in_range k (if t then 1 else 0)"
        by (cases k) (auto simp: int_in_range_def)
      with PyBool int assms(1,2) b show ?thesis
        by (simp add: ki py_int_def unpack_pack_int)
    qed (use pk in \<open>auto simp: pack_int_def convert_string_def\<close>)
  qed
qed

lemma take_prefix_shorter: "take (length (acc @ x)) b = acc @ x \<Longrightarrow> take (length acc) b = acc"
proof -
  assume a: "take (length (acc @ x)) b = acc @ x"
  have "take (length acc) b = take (length acc) (take (length (acc @ x)) b)" by simp
  also have "\<dots> = acc" unfolding a by simp
  finally show ?thesis .
qed

lemma pack_items_prefix:
  "plain_items items \<Longrightarrow> pack_items fp items vs acc = Inr b \<Longrightarrow> take (length acc) b = acc"
proof (induction items arbitrary: vs acc)
  case Nil
  then show ?case by simp
next
  case (Cons it items)
  obtain k n where it: "it = (k, n)" by (cases it)
  from Cons.prems(1) have pl: "plain_items items" and kn: "k = Cs \<or> n = Suc 0"
    by (simp_all add: it plain_items_Cons)
  show ?case
  proof (cases vs)
    case Nil
    with Cons.prems(2) kn show ?thesis by (auto simp: it split: if_splits)
  next
    case (Cons v vs')
    show ?thesis
    proof (cases "k = Cs")
      case True
      from Cons.prems(2) obtain pb where r: "pack_items fp items vs' (acc @ pb) = Inr b"
        unfolding it Cons True pack_items_s by (auto split: sum.splits)
      from Cons.IH [OF pl r] show ?thesis by (rule take_prefix_shorter)
    next
      case False
      with kn have n: "n = Suc 0" by simp
      from Cons.prems(2) obtain pb where
        r: "pack_items fp items vs' (pad_to acc (code_size k) @ pb) = Inr b"
        unfolding it Cons n pack_items_plain [OF False] by (auto split: sum.splits)
      from Cons.IH [OF pl r] have "take (length (acc @ (replicate (align_up (length acc) (code_size k) - length acc) 0 @ pb))) b
          = acc @ (replicate (align_up (length acc) (code_size k) - length acc) 0 @ pb)"
        by (simp add: pad_to_def)
      then show ?thesis by (rule take_prefix_shorter)
    qed
  qed
qed

lemma take_drop_of_prefix:
  "take (length (p @ x)) b = p @ x \<Longrightarrow> take (length x) (drop (length p) b) = x"
proof -
  assume a: "take (length (p @ x)) b = p @ x"
  have "take (length x) (drop (length p) b) = drop (length p) (take (length p + length x) b)"
    by (simp add: drop_take add.commute)
  also have "\<dots> = drop (length p) (p @ x)" using a by simp
  finally show ?thesis by simp
qed

lemma unpack_pack_items:
  assumes "plain_items items" and "list_all (\<lambda>(k, n). k \<noteq> Cs \<and> k \<noteq> Cf) items"
    and "pack_items fp items (map convert_string row) acc = Inr b"
    and "length row = length items"
  shows "convert_row fp (map (\<lambda>(k, n). code_dtype k) items) row = Inr (unpack_items fp items b (length acc))"
  using assms
proof (induction items arbitrary: row acc)
  case Nil
  then show ?case by simp
next
  case (Cons it items)
  obtain k n where it: "it = (k, n)" by (cases it)
  from Cons.prems(1,2) have pl: "plain_items items" and n: "n = Suc 0" and k: "k \<noteq> Cs" "k \<noteq> Cf"
    and la: "list_all (\<lambda>(k, n). k \<noteq> Cs \<and> k \<noteq> Cf) items"
    by (auto simp: it plain_items_Cons)
  from Cons.prems(4) obtain v row' where row: "row = v # row'" and lr: "length row' = length items"
    by (cases row) auto
  from Cons.prems(3) obtain pb where pb: "pack_one fp k (convert_string v) = Inr pb"
    and r: "pack_items fp items (map convert_string row') (pad_to acc (code_size k) @ pb) = Inr b"
    unfolding it row n list.map pack_items_plain [OF k(1)] by (auto split: sum.splits)
  have lpb: "length pb = code_size k" using pb by (rule length_pack_one)
  have lp: "length (pad_to acc (code_size k)) = align_up (length acc) (code_size k)"
    by (simp add: length_pad_to code_size_pos)
  from pack_items_prefix [OF pl r]
  have "take (length pb) (drop (length (pad_to acc (code_size k))) b) = pb"
    by (rule take_drop_of_prefix)
  then have f: "take (code_size k) (drop (align_up (length acc) (code_size k)) b) = pb"
    by (simp add: lpb lp)
  have ih: "convert_row fp (map (\<lambda>(k, n). code_dtype k) items) row'
             = Inr (unpack_items fp items b (align_up (length acc) (code_size k) + code_size k))"
    using Cons.IH [OF pl la r lr] by (simp add: lp lpb)
  show ?case
    unfolding it n row unpack_items_plain [OF k(1)] f
    using unpack_pack_one [OF k pb] ih by simp
qed

subsection \<open>Reading and writing rows of a mapped store\<close>

lemma parse_format_codes:
  "parse_format cs cnt = Some items \<Longrightarrow> (k, n) \<in> set items \<Longrightarrow> \<exists>c\<in>set cs. code_of_char c = Some k"
proof (induction cs cnt arbitrary: items rule: parse_format.induct)
  case 1
  then show ?case by simp
next
  case (2 n)
  then show ?case by simp
next
  case (3 c cs cnt)
  show ?case
  proof (cases "digit_of_char c")
    case (Some d)
    from "3.prems"(1) Some have "parse_format cs (Some (10 * (case cnt of None \<Rightarrow> 0 | Some n \<Rightarrow> n) + d)) = Some items"
      by simp
    with "3.IH" Some "3.prems"(2) have "\<exists>c\<in>set cs. code_of_char c = Some k" by blast
    then show ?thesis by auto
  next
    case None
    from "3.prems"(1) None obtain k' rest where k': "code_of_char c = Some k'"
      and rest: "parse_format cs None = Some rest"
      and items: "items = (k', (case cnt of None \<Rightarrow> 1 | Some n \<Rightarrow> n)) # rest"
      by (auto split: option.splits)
    from "3.prems"(2) items consider "k = k'" | "(k, n) \<in> set rest" by auto
    then show ?thesis
    proof cases
      case 1
      with k' show ?thesis by auto
    next
      case 2
      from "3.IH" None k' rest 2 have "\<exists>c\<in>set cs. code_of_char c = Some k" by blast
      then show ?thesis by auto
    qed
  qed
qed

lemma no_char_no_code:
  assumes "parse_format fmt None = Some items" and "CHR ''s'' \<notin> set fmt" and "CHR ''f'' \<notin> set fmt"
  shows "list_all (\<lambda>(k, n). k \<noteq> Cs \<and> k \<noteq> Cf) items"
proof -
  have "k \<noteq> Cs \<and> k \<noteq> Cf" if "(k, n) \<in> set items" for k n
  proof -
    from parse_format_codes [OF assms(1) that] obtain c where c: "c \<in> set fmt" "code_of_char c = Some k"
      by blast
    then show ?thesis using assms(2,3)
      by (auto simp: code_of_char_def split: if_splits)
  qed
  then show ?thesis by (auto simp: list_all_iff)
qed

lemma get_row:
  assumes parse: "parse_format (pack_format s) None = Some items"
    and rb: "rowbytes s = items_size 0 items"
    and f: "fobj s = FMmap False p (length (data s)) w"
    and idx: "0 \<le> idx" "idx < N s"
    and room: "(nat idx + 1) * rowbytes s \<le> length (data s)"
  shows "get fp s idx
           = (Inr ((if CHR ''s'' \<notin> set (pack_format s) then (\<lambda>r. r) else map (strip_field fp))
                     (unpack_items fp items (row_bytes s (nat idx)) 0)),
              s\<lparr>fobj := FMmap False (nat idx * rowbytes s + rowbytes s) (length (data s)) w\<rparr>)"
proof -
  have off: "nat (idx * int (rowbytes s)) = nat idx * rowbytes s"
    using idx(1) by (simp add: nat_mult_distrib)
  have le: "nat idx * rowbytes s + rowbytes s \<le> length (data s)" using room by simp
  have "int (nat idx) = idx" using idx(1) by simp
  then have e: "idx * int (rowbytes s) = int (nat idx * rowbytes s)" by (simp only: of_nat_mult)
  have sk: "\<not> int (length (data s)) < idx * int (rowbytes s)"
    unfolding e using le by linarith
  have "0 \<le> idx * int (rowbytes s)" using idx(1) by (intro mult_nonneg_nonneg) simp_all
  then have nn: "\<not> idx * int (rowbytes s) < 0" by simp
  have lr: "length (row_bytes s (nat idx)) = rowbytes s"
    using le by (simp add: row_bytes_def)
  have su: "struct_unpack fp (pack_format s) (row_bytes s (nat idx))
              = Inr (unpack_items fp items (row_bytes s (nat idx)) 0)"
    using parse rb lr by (simp add: struct_unpack_def)
  have mn: "min (length (data s) - nat idx * rowbytes s) (rowbytes s) = rowbytes s"
    using le by simp
  show ?thesis
    using idx sk nn
    by (simp add: get_def f_seek_def f_read_def f off Let_def mn su [unfolded row_bytes_def] row_bytes_def)
qed

lemma struct_pack_length:
  "parse_format fmt None = Some items \<Longrightarrow> plain_items items \<Longrightarrow> struct_pack fp fmt vs = Inr b
   \<Longrightarrow> length b = items_size 0 items"
  using pack_items_length [of items fp vs "[]" b]
  by (auto simp: struct_pack_def split: if_splits)

lemma putRow_ok:
  assumes parse: "parse_format (pack_format s) None = Some items"
    and pl: "plain_items items"
    and rb: "rowbytes s = items_size 0 items"
    and f: "fobj s = FMmap False p (length (data s)) w"
    and idx: "0 \<le> idx"
    and ok: "fst (putRow fp s idx row) = Inr ()"
  obtains bytes v where "struct_pack fp (pack_format s) (map convert_string row) = Inr bytes"
    and "length bytes = rowbytes s"
    and "convert_row fp (dtypes s) row = Inr v"
    and "length row = length (dtypes s)"
    and "nat idx * rowbytes s + rowbytes s \<le> length (data s)"
    and "putRow fp s idx row
           = (Inr (), s\<lparr>data := take (nat idx * rowbytes s) (data s) @ bytes
                                  @ drop (nat idx * rowbytes s + rowbytes s) (data s),
                        fobj := FMmap False (nat idx * rowbytes s + rowbytes s) (length (data s)) w\<rparr>)"
proof -
  have off: "nat (idx * int (rowbytes s)) = nat idx * rowbytes s"
    using idx by (simp add: nat_mult_distrib)
  from ok have lr: "length row = length (dtypes s)" and iN: "idx < N s"
    by (auto simp: putRow_def split: if_splits)
  from ok lr iN obtain v where v: "convert_row fp (dtypes s) row = Inr v"
    by (cases "convert_row fp (dtypes s) row") (auto simp: putRow_def split: if_splits sum.splits)
  from ok lr iN v obtain s1 where sk: "f_seek s (idx * int (rowbytes s)) = (Inr (), s1)"
    by (cases "f_seek s (idx * int (rowbytes s))") (auto simp: putRow_def Let_def split: sum.splits)
  then have s1: "s1 = s\<lparr>fobj := FMmap False (nat idx * rowbytes s) (length (data s)) w\<rparr>"
    by (auto simp: f_seek_def f off split: if_splits)
  from ok lr iN v sk obtain bytes where b: "struct_pack fp (pack_format s) (map convert_string row) = Inr bytes"
    by (cases "struct_pack fp (pack_format s) (map convert_string row)")
       (auto simp: putRow_def Let_def s1 split: sum.splits)
  have lb: "length bytes = rowbytes s"
    using struct_pack_length [OF parse pl b] rb by simp
  from ok lr iN v sk b have w: "fst (f_write s1 bytes) = Inr ()"
    by (simp add: putRow_def Let_def s1)
  then have room: "nat idx * rowbytes s + rowbytes s \<le> length (data s)" and ww: "w"
    by (auto simp: f_write_def s1 lb split: if_splits)
  have "putRow fp s idx row
           = (Inr (), s\<lparr>data := take (nat idx * rowbytes s) (data s) @ bytes
                                  @ drop (nat idx * rowbytes s + rowbytes s) (data s),
                        fobj := FMmap False (nat idx * rowbytes s + rowbytes s) (length (data s)) w\<rparr>)"
    using lr iN v sk b room ww
    by (simp add: putRow_def Let_def s1 f_write_def lb)
  with b lb v lr room show ?thesis by (rule that)
qed


lemma descr_okE:
  assumes "descr_ok s"
  obtains items where "parse_format (pack_format s) None = Some items" and "plain_items items"
    and "rowbytes s = items_size 0 items" and "dtypes s = map (\<lambda>(k, n). code_dtype k) items"
    and "length (colnames s) = length items"
  using assms by (auto simp: descr_ok_def split: option.splits)

lemma mappedE:
  assumes "mapped s"
  obtains p w where "fobj s = FMmap False p (length (data s)) w" and "fhandle s \<noteq> HNone"
  using assms by (cases "fobj s") (auto simp: mapped_def)

subsection \<open>C1: a row written is the row read\<close>

text \<open>
  On a store without fixed-bytes and float32 columns, \<^verbatim>\<open>get\<close> after a \<^verbatim>\<open>putRow\<close> that
  succeeded returns the whole row as the converters return it.
\<close>

lemma putRow_get_whole_row:
  assumes "descr_ok s" and "mapped s" and "0 \<le> idx" and "idx < N s"
    and "CHR ''s'' \<notin> set (pack_format s)" and "CHR ''f'' \<notin> set (pack_format s)"
    and "fst (putRow fp s idx row) = Inr ()"
  shows "\<exists>v. convert_row fp (dtypes s) row = Inr v
             \<and> fst (get fp (snd (putRow fp s idx row)) idx) = Inr v"
proof -
  from \<open>descr_ok s\<close> obtain items where parse: "parse_format (pack_format s) None = Some items"
    and pl: "plain_items items" and rb: "rowbytes s = items_size 0 items"
    and dt: "dtypes s = map (\<lambda>(k, n). code_dtype k) items"
    by (rule descr_okE)
  from \<open>mapped s\<close> obtain p w where f: "fobj s = FMmap False p (length (data s)) w"
    by (rule mappedE)
  from parse pl rb f assms(3,7) obtain bytes v
    where b: "struct_pack fp (pack_format s) (map convert_string row) = Inr bytes"
      and lb: "length bytes = rowbytes s"
      and v: "convert_row fp (dtypes s) row = Inr v"
      and lr: "length row = length (dtypes s)"
      and room: "nat idx * rowbytes s + rowbytes s \<le> length (data s)"
      and put: "putRow fp s idx row
           = (Inr (), s\<lparr>data := take (nat idx * rowbytes s) (data s) @ bytes
                                  @ drop (nat idx * rowbytes s + rowbytes s) (data s),
                        fobj := FMmap False (nat idx * rowbytes s + rowbytes s) (length (data s)) w\<rparr>)"
    by (rule putRow_ok)
  let ?s' = "s\<lparr>data := take (nat idx * rowbytes s) (data s) @ bytes
                                  @ drop (nat idx * rowbytes s + rowbytes s) (data s),
                        fobj := FMmap False (nat idx * rowbytes s + rowbytes s) (length (data s)) w\<rparr>"
  have ld: "length (data ?s') = length (data s)" using room lb by simp
  have rowb: "row_bytes ?s' (nat idx) = bytes"
    using room lb by (simp add: row_bytes_def)
  have g: "get fp ?s' idx
           = (Inr ((if CHR ''s'' \<notin> set (pack_format ?s') then (\<lambda>r. r) else map (strip_field fp))
                     (unpack_items fp items (row_bytes ?s' (nat idx)) 0)),
              ?s'\<lparr>fobj := FMmap False (nat idx * rowbytes ?s' + rowbytes ?s') (length (data ?s')) w\<rparr>)"
  proof (rule get_row)
    show "parse_format (pack_format ?s') None = Some items" using parse by simp
    show "rowbytes ?s' = items_size 0 items" using rb by simp
    show "fobj ?s' = FMmap False (nat idx * rowbytes s + rowbytes s) (length (data ?s')) w"
      unfolding ld by simp
    show "0 \<le> idx" by fact
    show "idx < N ?s'" using assms(4) by simp
    show "(nat idx + 1) * rowbytes ?s' \<le> length (data ?s')" unfolding ld using room by simp
  qed
  have codes: "list_all (\<lambda>(k, n). k \<noteq> Cs \<and> k \<noteq> Cf) items"
    using parse assms(5,6) by (rule no_char_no_code)
  from b parse have pk: "pack_items fp items (map convert_string row) [] = Inr bytes"
    by (auto simp: struct_pack_def split: if_splits)
  have "length row = length items" using lr dt by simp
  with pl codes pk have "convert_row fp (map (\<lambda>(k, n). code_dtype k) items) row
                           = Inr (unpack_items fp items bytes (length ([] :: byte list)))"
    by (intro unpack_pack_items)
  then have "v = unpack_items fp items bytes 0" using v dt by simp
  then have "fst (get fp ?s' idx) = Inr v"
    unfolding g rowb using assms(5) by simp
  with v put show ?thesis by simp
qed







lemma length_convert_row:
  "convert_row fp ds row = Inr v \<Longrightarrow> length ds = length row \<Longrightarrow> length v = length row"
proof (induction ds arbitrary: row v)
  case Nil
  then show ?case by simp
next
  case (Cons d ds)
  then obtain x row' where row: "row = x # row'" by (cases row) auto
  with Cons show ?case by (auto split: sum.splits)
qed















text \<open>
  The whole row read back in that example: the fixed-bytes field comes back as the
  \<^verbatim>\<open>repr\<close> of the bytes stored, the float32 and bool fields as converted.
\<close>

lemma mixed_store_get_after_putRow:
  "fst (get zero_float_ops
          (snd (putRow zero_float_ops mixed_store 1 [PyInt 7, PyStr ''hi'', PyInt 0, PyInt 5])) 1)
     = Inr [PyInt 7,
            PyStr [CHR ''b'', CHR 0x27, CHR ''h'', CHR ''i'', CHR 0x5C, CHR ''x'', CHR ''0'', CHR ''0'',
                   CHR 0x5C, CHR ''x'', CHR ''0'', CHR ''0'', CHR 0x27],
            PyFloat 0, PyBool True]"
  by code_simp


subsection \<open>C5: growing a store\<close>

lemma length_write_at: "length (write_at d p b) = max (length d) (p + length b)"
  by (auto simp: write_at_def)

lemma take_write_at: "n \<le> p \<Longrightarrow> n \<le> length d \<Longrightarrow> take n (write_at d p b) = take n d"
  by (auto simp: write_at_def min_def)

lemma take_drop_cong:
  assumes "take n a = take n b" and "k + m \<le> n"
  shows "take m (drop k a) = take m (drop k b)"
proof -
  have "take (k + m) (take n a) = take (k + m) (take n b)" by (simp only: assms(1))
  then have "take (k + m) a = take (k + m) b" using assms(2) by (simp add: min_def)
  then have "drop k (take (k + m) a) = drop k (take (k + m) b)" by simp
  then show ?thesis by (simp add: drop_take)
qed

lemma openfile_APPEND:
  "mode s = APPEND \<Longrightarrow> data s \<noteq> [] \<Longrightarrow>
   openfile s = (Inr (), s\<lparr>fhandle := HFile False, fobj := FMmap False 0 (length (data s)) True\<rparr>)"
  by (simp add: openfile_def mmap_new_def Let_def)

lemma appendBlankRows_ok:
  assumes m: "mode s = APPEND" and f: "fobj s = FMmap False p sz w" and h: "fhandle s \<noteq> HNone"
    and M: "1 \<le> M" and N: "0 \<le> N s"
  shows "appendBlankRows s M
           = (Inr (), s\<lparr>fobj := FMmap False 0 (length (write_at (data s) (rowbytes s * nat (N s + M)) [0])) True,
                        fhandle := HFile False,
                        data := write_at (data s) (rowbytes s * nat (N s + M)) [0],
                        N := N s + M, meta_N := N s + M\<rparr>)"
proof -
  from h obtain hc where hc: "fhandle s = HFile hc" by (cases "fhandle s") auto
  let ?s1 = "s\<lparr>fobj := FMmap True p sz w, fhandle := HFile True\<rparr>"
  have c1: "close s = (Inr (), ?s1)" using f hc by (simp add: close_def Let_def)
  have c2: "close ?s1 = (Inr (), ?s1)" by (simp add: close_def Let_def)
  have "0 \<le> N s + M" using M N by simp
  then have "int (rowbytes s) * (N s + M) = int (rowbytes s * nat (N s + M))" by simp
  then have t: "\<not> int (rowbytes s) * (N s + M) < 0"
    and nt: "nat (int (rowbytes s) * (N s + M)) = rowbytes s * nat (N s + M)"
    by (simp_all del: of_nat_mult)
  let ?d = "write_at (data s) (rowbytes s * nat (N s + M)) [0]"
  have ne: "?d \<noteq> []" using length_write_at [of "data s" "rowbytes s * nat (N s + M)" "[0]"]
    by (metis length_0_conv length_Cons max.cobounded2 add_Suc_right le_zero_eq nat.distinct(1) list.size(3))
  let ?s5 = "?s1\<lparr>data := ?d, N := N s + M, meta_N := N s + M\<rparr>"
  have o: "openfile ?s5 = (Inr (), ?s5\<lparr>fhandle := HFile False, fobj := FMmap False 0 (length (data ?s5)) True\<rparr>)"
    using m ne by (intro openfile_APPEND) simp_all
  have "appendBlankRows s M = openfile ?s5"
    using m M t by (simp add: appendBlankRows_def c1 c2 Let_def nt)
  then show ?thesis unfolding o by simp
qed


lemma get_ok:
  assumes "descr_ok s" and "mapped s" and "0 \<le> idx" and "idx < N s"
    and "(nat idx + 1) * rowbytes s \<le> length (data s)"
  obtains items where "parse_format (pack_format s) None = Some items"
    and "fst (get fp s idx)
           = Inr ((if CHR ''s'' \<notin> set (pack_format s) then (\<lambda>r. r) else map (strip_field fp))
                     (unpack_items fp items (row_bytes s (nat idx)) 0))"
proof -
  from assms(1) obtain items where parse: "parse_format (pack_format s) None = Some items"
    and rb: "rowbytes s = items_size 0 items"
    by (rule descr_okE)
  from assms(2) obtain p w where f: "fobj s = FMmap False p (length (data s)) w"
    by (rule mappedE)
  from get_row [OF parse rb f assms(3,4,5), of fp] parse show ?thesis
    by (intro that [of items]) simp_all
qed

text \<open>
  C5. On a store opened for appending, with a descriptor as \<^verbatim>\<open>MakeStore\<close> derives it, an
  open mapping and a data file of \<open>N\<close> rows and the final byte: \<^verbatim>\<open>appendBlankRows(M)\<close>
  with \<open>M \<ge> 1\<close> succeeds, \<open>N\<close> grows by exactly \<open>M\<close> (in the handle and in the
  descriptor on disk), the bytes of every row that was there are unchanged and
  \<^verbatim>\<open>get\<close> returns for it what it returned before, and \<^verbatim>\<open>get\<close> returns a row, not an
  exception, at every index below the new \<open>N\<close>. The store is again of this shape.
\<close>

theorem appendBlankRows_grows:
  assumes "mode s = APPEND" and "descr_ok s" and "file_ok s" and "mapped s" and "1 \<le> M"
  shows "fst (appendBlankRows s M) = Inr ()
         \<and> N (snd (appendBlankRows s M)) = N s + M
         \<and> (\<forall>k. 0 \<le> k \<and> k < N s \<longrightarrow>
               row_bytes (snd (appendBlankRows s M)) (nat k) = row_bytes s (nat k)
               \<and> fst (get fp (snd (appendBlankRows s M)) k) = fst (get fp s k))
         \<and> (\<forall>k. 0 \<le> k \<and> k < N s + M \<longrightarrow> (\<exists>row. fst (get fp (snd (appendBlankRows s M)) k) = Inr row))
         \<and> descr_ok (snd (appendBlankRows s M)) \<and> file_ok (snd (appendBlankRows s M))
         \<and> mapped (snd (appendBlankRows s M)) \<and> meta_N (snd (appendBlankRows s M)) = N s + M"
proof -
  from \<open>mapped s\<close> obtain p w where f: "fobj s = FMmap False p (length (data s)) w"
    and h: "fhandle s \<noteq> HNone"
    by (rule mappedE)
  from \<open>file_ok s\<close> have N0: "0 \<le> N s" and ld: "length (data s) = nat (N s) * rowbytes s + 1"
    by (simp_all add: file_ok_def)
  define P where "P = rowbytes s * nat (N s + M)"
  define d' where "d' = write_at (data s) P [0]"
  define s' where "s' = s\<lparr>fobj := FMmap False 0 (length d') True, fhandle := HFile False,
                            data := d', N := N s + M, meta_N := N s + M\<rparr>"
  have ab: "appendBlankRows s M = (Inr (), s')"
    unfolding s'_def d'_def P_def using assms(1) f h assms(5) N0 by (rule appendBlankRows_ok)
  have "nat (N s) \<le> nat (N s + M)" using assms(5) by simp
  then have nP: "nat (N s) * rowbytes s \<le> P" unfolding P_def by (simp add: mult.commute)
  have ld': "length d' = P + 1"
    unfolding d'_def length_write_at ld using nP by simp
  have tk: "take (nat (N s) * rowbytes s) d' = take (nat (N s) * rowbytes s) (data s)"
    unfolding d'_def using nP ld by (intro take_write_at) simp_all
  have dk': "descr_ok s'" using assms(2) by (simp add: descr_ok_def s'_def split: option.splits)
  have mp': "mapped s'" by (simp add: mapped_def s'_def)
  have fk': "file_ok s'" using N0 assms(5) ld' by (simp add: file_ok_def s'_def P_def mult.commute)
  have old: "row_bytes s' (nat k) = row_bytes s (nat k) \<and> fst (get fp s' k) = fst (get fp s k)"
    if k: "0 \<le> k" "k < N s" for k
  proof -
    have "nat k + 1 \<le> nat (N s)" using k by simp
    then have "(nat k + 1) * rowbytes s \<le> nat (N s) * rowbytes s" by (rule mult_le_mono1)
    then have le: "nat k * rowbytes s + rowbytes s \<le> nat (N s) * rowbytes s" by simp
    from tk le have rbq: "take (rowbytes s) (drop (nat k * rowbytes s) d')
                   = take (rowbytes s) (drop (nat k * rowbytes s) (data s))"
      by (rule take_drop_cong)
    then have r: "row_bytes s' (nat k) = row_bytes s (nat k)"
      by (simp add: row_bytes_def s'_def)
    have room: "(nat k + 1) * rowbytes s \<le> length (data s)" using le ld by simp
    have room': "(nat k + 1) * rowbytes s' \<le> length (data s')"
      using le nP ld' by (simp add: s'_def)
    have kN': "k < N s'" using k(2) assms(5) by (simp add: s'_def)
    from assms(2,4) k room obtain items where p1: "parse_format (pack_format s) None = Some items"
      and g1: "fst (get fp s k)
           = Inr ((if CHR ''s'' \<notin> set (pack_format s) then (\<lambda>r. r) else map (strip_field fp))
                     (unpack_items fp items (row_bytes s (nat k)) 0))"
      by (rule get_ok)
    from dk' mp' k(1) kN' room' obtain items' where p2: "parse_format (pack_format s') None = Some items'"
      and g2: "fst (get fp s' k)
           = Inr ((if CHR ''s'' \<notin> set (pack_format s') then (\<lambda>r. r) else map (strip_field fp))
                     (unpack_items fp items' (row_bytes s' (nat k)) 0))"
      by (rule get_ok)
    have "items' = items" using p1 p2 by (simp add: s'_def)
    then have "fst (get fp s' k) = fst (get fp s k)" unfolding g1 g2 r by (simp add: s'_def)
    with r show ?thesis by simp
  qed
  have new: "\<exists>row. fst (get fp s' k) = Inr row" if k: "0 \<le> k" "k < N s + M" for k
  proof -
    have "nat k + 1 \<le> nat (N s + M)" using k by simp
    then have "(nat k + 1) * rowbytes s \<le> nat (N s + M) * rowbytes s" by (rule mult_le_mono1)
    then have room': "(nat k + 1) * rowbytes s' \<le> length (data s')"
      using ld' by (simp add: s'_def P_def mult.commute)
    have kN': "k < N s'" using k(2) by (simp add: s'_def)
    from dk' mp' k(1) kN' room' obtain items' where
      "fst (get fp s' k)
           = Inr ((if CHR ''s'' \<notin> set (pack_format s') then (\<lambda>r. r) else map (strip_field fp))
                     (unpack_items fp items' (row_bytes s' (nat k)) 0))"
      by (rule get_ok)
    then show ?thesis by simp
  qed
  have "N s' = N s + M" and "meta_N s' = N s + M" by (simp_all add: s'_def)
  with old new dk' fk' mp' show ?thesis unfolding ab by simp
qed

theorem appendBlankRows_grows_witness:
  "mode (scenario_store APPEND (FMmap False 0 25 True) (HFile False)) = APPEND
   \<and> descr_ok (scenario_store APPEND (FMmap False 0 25 True) (HFile False))
   \<and> file_ok (scenario_store APPEND (FMmap False 0 25 True) (HFile False))
   \<and> mapped (scenario_store APPEND (FMmap False 0 25 True) (HFile False))
   \<and> (1::int) \<le> 2
   \<and> N (snd (appendBlankRows (scenario_store APPEND (FMmap False 0 25 True) (HFile False)) 2)) = 5
   \<and> length (data (snd (appendBlankRows (scenario_store APPEND (FMmap False 0 25 True) (HFile False)) 2))) = 41
   \<and> (\<exists>row. fst (get zero_float_ops
                 (snd (appendBlankRows (scenario_store APPEND (FMmap False 0 25 True) (HFile False)) 2)) 4) = Inr row)
   \<and> fst (get zero_float_ops
                 (snd (appendBlankRows (scenario_store APPEND (FMmap False 0 25 True) (HFile False)) 2)) 0)
       = fst (get zero_float_ops (scenario_store APPEND (FMmap False 0 25 True) (HFile False)) 0)"
proof -
  let ?s = "scenario_store APPEND (FMmap False 0 25 True) (HFile False)"
  have a: "mode ?s = APPEND" by code_simp
  have b: "descr_ok ?s" by code_simp
  have c: "file_ok ?s" by code_simp
  have d: "mapped ?s" by code_simp
  have e: "(1::int) \<le> 2" by simp
  have n: "N ?s = 3" by code_simp
  have l: "length (data (snd (appendBlankRows ?s 2))) = 41" by code_simp
  from appendBlankRows_grows [OF a b c d e, of zero_float_ops]
  have "N (snd (appendBlankRows ?s 2)) = N ?s + 2"
    and "\<forall>k. 0 \<le> k \<and> k < N ?s \<longrightarrow>
               row_bytes (snd (appendBlankRows ?s 2)) (nat k) = row_bytes ?s (nat k)
               \<and> fst (get zero_float_ops (snd (appendBlankRows ?s 2)) k) = fst (get zero_float_ops ?s k)"
    and "\<forall>k. 0 \<le> k \<and> k < N ?s + 2 \<longrightarrow> (\<exists>row. fst (get zero_float_ops (snd (appendBlankRows ?s 2)) k) = Inr row)"
    by blast+
  then have "N (snd (appendBlankRows ?s 2)) = 5"
    and "fst (get zero_float_ops (snd (appendBlankRows ?s 2)) 0) = fst (get zero_float_ops ?s 0)"
    and "\<exists>row. fst (get zero_float_ops (snd (appendBlankRows ?s 2)) 4) = Inr row"
    unfolding n by simp_all
  with a b c d e l show ?thesis by simp
qed

subsection \<open>The descriptor \<^verbatim>\<open>MakeStore\<close> derives\<close>







lemma items_size_ge: "acc + sum_list (map (\<lambda>(k, n). n * code_size k) items) \<le> items_size acc items"
proof (induction items arbitrary: acc)
  case Nil
  then show ?case by simp
next
  case (Cons it items)
  obtain k n where it: "it = (k, n)" by (cases it)
  have "acc \<le> align_up acc (code_align k)"
    by (rule align_up_ge) (simp add: code_align_def code_size_pos)
  with Cons [of "align_up acc (code_align k) + n * code_size k"] show ?case
    by (simp add: it)
qed







subsection \<open>C2: row width and file length\<close>








subsection \<open>C3: scanning a column\<close>

lemma MakeStore_byte:
  "fst (MakeStore zero_float_ops [(''a'', Np_uint8)] 3 no_dir True) = Inr byte_store"
  by code_simp

lemma code_not_digit: "code_of_char ch = Some k \<Longrightarrow> digit_of_char ch = None"
  by (auto simp: code_of_char_def digit_of_char_def Let_def split: if_splits)

lemma parse_format_scalar:
  "list_all (\<lambda>ch. code_of_char ch \<noteq> None) fmt \<Longrightarrow>
   parse_format fmt None = Some (map (\<lambda>ch. (the (code_of_char ch), Suc 0)) fmt)"
proof (induction fmt)
  case Nil
  then show ?case by simp
next
  case (Cons ch fmt)
  then obtain k where k: "code_of_char ch = Some k" by auto
  with Cons show ?case by (simp add: code_not_digit [OF k])
qed

lemma items_size_append: "items_size acc (xs @ ys) = items_size (items_size acc xs) ys"
  by (induction xs arbitrary: acc) auto

lemma items_size_acc_le: "acc \<le> items_size acc items"
  using items_size_ge [of acc items] by simp

lemma pack_zero:
  assumes "zero_ok fp" and "k \<noteq> Cs"
  shows "\<exists>z pb. call_dtype fp (code_dtype k) (PyInt 0) = Inr z \<and> pack_one fp k z = Inr pb"
proof -
  from assms(1) obtain w x where w: "f64_of_int fp 0 = Some w" and x: "f32_of_f64 fp w = Some x"
    by (auto simp: zero_ok_def split: option.splits)
  show ?thesis using assms(2)
    by (cases k) (simp_all add: py_int_def py_float_def pack_one_def pack_int_def int_in_range_def
        as_f64_def w x)
qed

lemma pack_zeros:
  assumes "zero_ok fp" and "Cs \<notin> set ks"
  shows "\<exists>zs b. call_all fp (map code_dtype ks) (PyInt 0) = Inr zs \<and> length zs = length ks
               \<and> pack_items fp (map (\<lambda>k. (k, Suc 0)) ks) zs acc = Inr b"
  using assms(2)
proof (induction ks arbitrary: acc)
  case Nil
  then show ?case by simp
next
  case (Cons k ks)
  then have k: "k \<noteq> Cs" and ks: "Cs \<notin> set ks" by auto
  from pack_zero [OF assms(1) k] obtain z pb where z: "call_dtype fp (code_dtype k) (PyInt 0) = Inr z"
    and pb: "pack_one fp k z = Inr pb" by blast
  from Cons.IH [OF ks, of "pad_to acc (code_size k) @ pb"] obtain zs b where
    zs: "call_all fp (map code_dtype ks) (PyInt 0) = Inr zs" "length zs = length ks"
    "pack_items fp (map (\<lambda>k. (k, Suc 0)) ks) zs (pad_to acc (code_size k) @ pb) = Inr b"
    by blast
  have "pack_items fp (map (\<lambda>k. (k, Suc 0)) (k # ks)) (z # zs) acc = Inr b"
    unfolding list.map pack_items_plain [OF k] using pb zs(3) by simp
  with z zs(1,2) show ?case
    by (intro exI [of _ "z # zs"] exI [of _ b]) simp
qed

lemma align_up_0: "align_up 0 a = 0"
  by (cases "a = 0") (simp_all add: align_up_def)

lemma struct_unpack_single:
  assumes "kc \<noteq> Cs" and "code_of_char ch = Some kc"
  shows "struct_unpack fp [ch] b
           = (if length b \<noteq> code_size kc then Inl StructError else Inr [unpack_one fp kc b])"
  using assms
  by (simp add: struct_unpack_def code_not_digit [OF assms(2)] code_align_def align_up_0 Let_def)

lemma f_read_mmap:
  "fobj s = FMmap False p (length (data s)) w \<Longrightarrow>
   f_read s n = (Inr (take n (drop p (data s))),
                 s\<lparr>fobj := FMmap False (p + length (take n (drop p (data s)))) (length (data s)) w\<rparr>)"
  by (simp add: f_read_def Let_def)

lemma f_seek_mmap:
  "fobj s = FMmap False p (length (data s)) w \<Longrightarrow>
   f_seek s (int q) = (if length (data s) < q then (Inl ValueError, s)
                       else (Inr (), s\<lparr>fobj := FMmap False q (length (data s)) w\<rparr>))"
  by (simp add: f_seek_def)

lemma col_loop_rows:
  fixes rb Nn off :: nat
  assumes "fobj s = FMmap False (off + j * rb) (length (data s)) w"
    and "length (data s) = Nn * rb + 1"
    and "rowbytes s = rb"
    and kc: "kc \<noteq> Cs" "code_of_char ch = Some kc"
    and wd: "off + code_size kc \<le> rb"
    and nz: "\<not> (off = 0 \<and> code_size kc = 1)"
    and "j \<le> Nn" and "off + j * rb \<le> length (data s)"
    and "Nn - j < fuel"
  shows "\<exists>s'. col_loop fuel fp s (code_size kc) [ch] (int (off + Suc j * rb))
           = Some (map (\<lambda>k. [unpack_one fp kc (take (code_size kc) (drop (off + k * rb) (data s)))]) [j..<Nn],
                   StopIteration, s')"
  using assms(1,2,3,8,9,10)
proof (induction "Nn - j" arbitrary: j s fuel)
  case 0
  then have jN: "j = Nn" by simp
  note ld = "0.prems"(2)
  from "0.prems"(6) obtain fuel' where fuel: "fuel = Suc fuel'" by (cases fuel) auto
  let ?p = "off + j * rb"
  let ?b = "take (code_size kc) (drop ?p (data s))"
  have rd: "f_read s (code_size kc) = (Inr ?b, s\<lparr>fobj := FMmap False (?p + length ?b) (length (data s)) w\<rparr>)"
    using "0.prems"(1) by (rule f_read_mmap)
  have "off \<le> 1" using "0.prems"(5) unfolding ld jN by simp
  then have "length ?b \<noteq> code_size kc"
    using nz ld jN code_size_pos [of kc] by (auto simp: min_def)
  then have su: "struct_unpack fp [ch] ?b = Inl StructError"
    by (simp add: struct_unpack_single [OF kc])
  show ?case
    unfolding fuel col_loop.simps rd using su \<open>length ?b \<noteq> code_size kc\<close> by (simp add: jN)
next
  case (Suc n)
  then have jN: "j < Nn" by simp
  note ld = Suc.prems(2) and rbs = Suc.prems(3)
  from Suc.prems(6) obtain fuel' where fuel: "fuel = Suc fuel'" by (cases fuel) auto
  let ?p = "off + j * rb"
  let ?b = "take (code_size kc) (drop ?p (data s))"
  let ?s1 = "s\<lparr>fobj := FMmap False (?p + length ?b) (length (data s)) w\<rparr>"
  have rd: "f_read s (code_size kc) = (Inr ?b, ?s1)"
    using Suc.prems(1) by (rule f_read_mmap)
  have "Suc j * rb \<le> Nn * rb" using jN by (intro mult_le_mono1) simp
  then have room: "?p + code_size kc \<le> Nn * rb" using wd by simp
  then have "code_size kc \<le> length (data s) - ?p" unfolding ld by simp
  then have lb: "min (length (data s) - ?p) (code_size kc) = code_size kc"
    by (rule min_absorb2)
  have su: "struct_unpack fp [ch] ?b = Inr [unpack_one fp kc ?b]"
    by (simp add: struct_unpack_single [OF kc] lb)
  have f1: "fobj ?s1 = FMmap False (?p + length ?b) (length (data ?s1)) w" by simp
  have sk: "f_seek ?s1 (int (off + Suc j * rb))
              = (if length (data s) < off + Suc j * rb then (Inl ValueError, ?s1)
                 else (Inr (), ?s1\<lparr>fobj := FMmap False (off + Suc j * rb) (length (data s)) w\<rparr>))"
    using f_seek_mmap [OF f1, of "off + Suc j * rb"] by simp
  have up: "[j..<Nn] = j # [Suc j..<Nn]" using jN by (rule upt_conv_Cons)
  show ?case
  proof (cases "length (data s) < off + Suc j * rb")
    case True
    have "Suc j = Nn"
    proof (rule ccontr)
      assume "Suc j \<noteq> Nn"
      with jN have "Suc (Suc j) \<le> Nn" by simp
      then have "Suc (Suc j) * rb \<le> Nn * rb" by (rule mult_le_mono1)
      with wd ld True show False by simp
    qed
    then have "[j..<Nn] = [j]" using up by simp
    then show ?thesis
      unfolding fuel col_loop.simps rd using su sk True by simp
  next
    case False
    let ?s2 = "?s1\<lparr>fobj := FMmap False (off + Suc j * rb) (length (data s)) w\<rparr>"
    have "\<exists>s'. col_loop fuel' fp ?s2 (code_size kc) [ch] (int (off + Suc (Suc j) * rb))
           = Some (map (\<lambda>k. [unpack_one fp kc (take (code_size kc) (drop (off + k * rb) (data ?s2)))]) [Suc j..<Nn],
                   StopIteration, s')"
    proof (rule Suc.hyps(1))
      show "n = Nn - Suc j" using Suc.hyps(2) by simp
      show "fobj ?s2 = FMmap False (off + Suc j * rb) (length (data ?s2)) w" by simp
      show "length (data ?s2) = Nn * rb + 1" using ld by simp
      show "rowbytes ?s2 = rb" using rbs by simp
      show "Suc j \<le> Nn" using jN by simp
      show "off + Suc j * rb \<le> length (data ?s2)" using False by simp
      show "Nn - Suc j < fuel'" using Suc.prems(6) fuel jN by simp
    qed
    then obtain s' where ih: "col_loop fuel' fp ?s2 (code_size kc) [ch] (int (off + Suc (Suc j) * rb))
           = Some (map (\<lambda>k. [unpack_one fp kc (take (code_size kc) (drop (off + k * rb) (data s)))]) [Suc j..<Nn],
                   StopIteration, s')"
      by auto
    have nx: "int (off + Suc j * rb) + int (rowbytes ?s2) = int (off + Suc (Suc j) * rb)"
      using rbs by simp
    have ih': "col_loop fuel' fp ?s2 (code_size kc) [ch] (int (off + Suc j * rb) + int (rowbytes ?s2))
           = Some (map (\<lambda>k. [unpack_one fp kc (take (code_size kc) (drop (off + k * rb) (data s)))]) [Suc j..<Nn],
                   StopIteration, s')"
      using ih unfolding nx .
    show ?thesis
      unfolding fuel col_loop.simps rd up using su sk False ih' by simp
  qed
qed

lemma code_of_char_Cs: "code_of_char ch = Some Cs \<Longrightarrow> ch = CHR ''s''"
  by (auto simp: code_of_char_def split: if_splits)

lemma scalarE:
  assumes "scalar_format fmt"
  obtains ks where "length ks = length fmt" and "Cs \<notin> set ks"
    and "\<And>c. parse_format (take c fmt) None = Some (map (\<lambda>k. (k, Suc 0)) (take c ks))"
    and "parse_format fmt None = Some (map (\<lambda>k. (k, Suc 0)) ks)"
    and "\<And>c. c < length fmt \<Longrightarrow> code_of_char (fmt ! c) = Some (ks ! c)"
proof -
  define ks where "ks = map (\<lambda>ch. the (code_of_char ch)) fmt"
  from assms have all: "list_all (\<lambda>ch. code_of_char ch \<noteq> None) fmt"
    and ns: "CHR ''s'' \<notin> set fmt"
    by (auto simp: scalar_format_def list_all_iff)
  have l: "length ks = length fmt" by (simp add: ks_def)
  have nth: "code_of_char (fmt ! c) = Some (ks ! c)" if "c < length fmt" for c
    using all that by (auto simp: ks_def list_all_length)
  have cs: "Cs \<notin> set ks"
  proof
    assume "Cs \<in> set ks"
    then obtain c where c: "c < length ks" "ks ! c = Cs" by (auto simp: in_set_conv_nth)
    with nth [of c] l have "fmt ! c = CHR ''s''" by (simp add: code_of_char_Cs)
    with c(1) l ns show False by (metis nth_mem)
  qed
  have pt: "parse_format (take c fmt) None = Some (map (\<lambda>k. (k, Suc 0)) (take c ks))" for c
  proof -
    have "list_all (\<lambda>ch. code_of_char ch \<noteq> None) (take c fmt)"
      using all by (auto simp: list_all_iff dest: in_set_takeD)
    from parse_format_scalar [OF this] show ?thesis
      by (simp add: ks_def take_map)
  qed
  have pf: "parse_format fmt None = Some (map (\<lambda>k. (k, Suc 0)) ks)"
    using pt [of "length fmt"] l by simp
  from l cs pt pf nth show ?thesis by (rule that)
qed

lemma unpack_items_nth:
  assumes "Cs \<notin> set ks" and "c < length ks"
  shows "unpack_items fp (map (\<lambda>k. (k, Suc 0)) ks) buf off ! c
           = unpack_one fp (ks ! c)
               (take (code_size (ks ! c))
                  (drop (align_up (items_size off (map (\<lambda>k. (k, Suc 0)) (take c ks))) (code_size (ks ! c))) buf))"
  using assms
proof (induction ks arbitrary: off c)
  case Nil
  then show ?case by simp
next
  case (Cons k ks)
  then have k: "k \<noteq> Cs" and ks: "Cs \<notin> set ks" by auto
  show ?case
  proof (cases c)
    case 0
    then show ?thesis
      unfolding list.map unpack_items_plain [OF k] by simp
  next
    case (Suc c')
    with Cons.prems(2) have c': "c' < length ks" by simp
    show ?thesis
      unfolding Suc list.map take_Suc_Cons unpack_items_plain [OF k] items_size_plain [OF k]
      using Cons.IH [OF ks c'] by simp
  qed
qed

lemma items_args_plain: "Cs \<notin> set ks \<Longrightarrow> items_args (map (\<lambda>k. (k, Suc 0)) ks) = length ks"
  by (induction ks) auto

lemma plain_items_ks: "plain_items (map (\<lambda>k. (k, Suc 0)) ks)"
  by (simp add: plain_items_def list_all_iff)

lemma items_size_take_le:
  "items_size acc (take c items) \<le> items_size acc items"
proof -
  have "items_size acc items = items_size (items_size acc (take c items)) (drop c items)"
    by (metis append_take_drop_id items_size_append)
  then show ?thesis using items_size_acc_le [of "items_size acc (take c items)" "drop c items"] by simp
qed

lemma column_end_le:
  assumes "Cs \<notin> set ks" and "c < length ks"
  shows "align_up (items_size 0 (map (\<lambda>k. (k, Suc 0)) (take c ks))) (code_size (ks ! c)) + code_size (ks ! c)
           \<le> items_size 0 (map (\<lambda>k. (k, Suc 0)) ks)"
proof -
  have k: "ks ! c \<noteq> Cs" using assms by (metis nth_mem)
  have "take (Suc c) ks = take c ks @ [ks ! c]" using assms(2) by (rule take_Suc_conv_app_nth)
  then have "items_size 0 (map (\<lambda>k. (k, Suc 0)) (take (Suc c) ks))
        = items_size (items_size 0 (map (\<lambda>k. (k, Suc 0)) (take c ks))) [(ks ! c, Suc 0)]"
    by (simp add: items_size_append del: items_size.simps)
  also have "\<dots> = align_up (items_size 0 (map (\<lambda>k. (k, Suc 0)) (take c ks))) (code_size (ks ! c)) + code_size (ks ! c)"
    by (simp add: code_align_def)
  finally show ?thesis
    using items_size_take_le [of 0 "Suc c" "map (\<lambda>k. (k, Suc 0)) ks"] by (simp add: take_map)
qed

lemma MakeStore_padded:
  "fst (MakeStore zero_float_ops [(''a'', Np_uint8), (''b'', Np_int32)] 3 no_dir True) = Inr padded_store"
  by code_simp

text \<open>
  C3 says that the sequence \<^verbatim>\<open>getColByIdx\<close> produces has exactly \<open>N\<close> elements, ends cleanly
  at the end of the data, and has as its \<open>k\<close>-th element field \<open>c\<close> of \<^verbatim>\<open>get(k)\<close>. The body
  of the generator ends with \<^verbatim>\<open>raise StopIteration\<close>, which its consumer receives as
  \<^verbatim>\<open>RuntimeError\<close>: on the scenario store, after \<^verbatim>\<open>putRow(0, (7, "hi"))\<close>, column \<^verbatim>\<open>a\<close> gives
  \<^verbatim>\<open>(7,)\<close>, \<^verbatim>\<open>(0,)\<close>, \<^verbatim>\<open>(0,)\<close> (each what \<^verbatim>\<open>struct.unpack\<close> returns, a tuple of one value)
  and then the \<^verbatim>\<open>RuntimeError\<close>. Three more cases: for the fixed-bytes column \<^verbatim>\<open>b\<close> the
  format character taken is \<^verbatim>\<open>pack_format[1]\<close>, the digit \<^verbatim>\<open>4\<close>, and the first request
  raises \<^verbatim>\<open>struct.error\<close>; on a store with the single column \<^verbatim>\<open>uint8\<close> and 3 rows the
  scan gives 4 elements, the last one read from the byte written at the end of the
  file; and on the columns \<^verbatim>\<open>[uint8, int32]\<close> the second column is read from offset 1
  of each row, not from offset 4 where the padded field is, so that after
  \<^verbatim>\<open>putRow(0, (1, 2))\<close> its first element is \<^verbatim>\<open>(33554432,)\<close> where \<^verbatim>\<open>get(0)\<close> has 2.
\<close>

theorem getColByIdx_ends_with_RuntimeError:
  "map_option (\<lambda>(ys, e, s1). (ys, e))
      (getColByIdx 10 zero_float_ops
         (snd (putRow zero_float_ops (scenario_store WRITE (FMmap False 0 25 True) (HFile False)) 0
                 [PyInt 7, PyStr ''hi''])) 0)
     = Some ([[PyInt 7], [PyInt 0], [PyInt 0]], RuntimeError)
   \<and> map_option (map_sum (\<lambda>e. e) (\<lambda>(ys, e, s1). (ys, e)))
      (getCol 10 zero_float_ops
         (snd (putRow zero_float_ops (scenario_store WRITE (FMmap False 0 25 True) (HFile False)) 0
                 [PyInt 7, PyStr ''hi''])) ''a'')
     = Some (Inr ([[PyInt 7], [PyInt 0], [PyInt 0]], RuntimeError))
   \<and> map_option (\<lambda>(ys, e, s1). (ys, e))
      (getColByIdx 10 zero_float_ops (scenario_store WRITE (FMmap False 0 25 True) (HFile False)) 1)
     = Some ([], StructError)
   \<and> N byte_store = 3
   \<and> map_option (\<lambda>(ys, e, s1). (ys, e)) (getColByIdx 10 zero_float_ops byte_store 0)
     = Some ([[PyInt 0], [PyInt 0], [PyInt 0], [PyInt 0]], RuntimeError)
   \<and> fst (get zero_float_ops (snd (putRow zero_float_ops padded_store 0 [PyInt 1, PyInt 2])) 0)
     = Inr [PyInt 1, PyInt 2]
   \<and> map_option (\<lambda>(ys, e, s1). (ys, e))
      (getColByIdx 10 zero_float_ops (snd (putRow zero_float_ops padded_store 0 [PyInt 1, PyInt 2])) 1)
     = Some ([[PyInt 33554432], [PyInt 0], [PyInt 0]], RuntimeError)"
  by code_simp

end
